theory Spec2Isabelle
  imports Main
begin

section \<open>Python values\<close>

text \<open>
  A Python \<open>str\<close> is a sequence of code points; it is modelled as a list of natural
  numbers, so that \<open>len\<close> is \<open>length\<close> and the slice \<open>s[:n]\<close> is \<open>take n s\<close> for
  every string, also outside ASCII. \<open>U\<close> turns an ASCII literal into such a list; the
  symbols of the source's literals that are not ASCII are written as their code points.
\<close>

type_synonym ustr = "nat list"

definition U :: "string \<Rightarrow> ustr" where
  "U s = map of_char s"

text \<open>A text in single quotes, as in \<open>f"'{entry_title}'"\<close>.\<close>

definition q :: "ustr \<Rightarrow> ustr" where
  "q s = [39] @ s @ [39]"

text \<open>\<open>str(n)\<close> of an integer, as an f-string formats it.\<close>

fun str_nat :: "nat \<Rightarrow> ustr" where
  "str_nat n = (if n < 10 then [48 + n] else str_nat (n div 10) @ [48 + n mod 10])"

declare str_nat.simps [simp del]

definition str_int :: "int \<Rightarrow> ustr" where
  "str_int i = (if i < 0 then 45 # str_nat (nat (- i)) else str_nat (nat i))"

text \<open>
  \<open>str.strip()\<close> removes the leading and trailing characters for which \<open>str.isspace\<close>
  holds.
\<close>

definition isspace :: "nat \<Rightarrow> bool" where
  "isspace c = (c \<in> set [9, 10, 11, 12, 13, 28, 29, 30, 31, 32, 133, 160, 5760,
                          8232, 8233, 8239, 8287, 12288] \<or> (8192 \<le> c \<and> c \<le> 8202))"

definition strip :: "ustr \<Rightarrow> ustr" where
  "strip s = rev (dropWhile isspace (rev (dropWhile isspace s)))"

text \<open>
  \<open>str.lower()\<close> on the ASCII capitals. Python also lowers capitals outside ASCII; none of
  them becomes \<open>y\<close>, \<open>e\<close> or \<open>s\<close>, the only letters the source compares a lowered text with.
\<close>

definition lower :: "ustr \<Rightarrow> ustr" where
  "lower s = map (\<lambda>c. if 65 \<le> c \<and> c \<le> 90 then c + 32 else c) s"

text \<open>Optional texts: an attribute that is a \<open>str\<close> or \<open>None\<close>.\<close>

definition truthy :: "ustr option \<Rightarrow> bool" where
  "truthy x = (case x of None \<Rightarrow> False | Some s \<Rightarrow> s \<noteq> [])"

text \<open>\<open>f"{x}"\<close>\<close>

definition fmt :: "ustr option \<Rightarrow> ustr" where
  "fmt x = (case x of None \<Rightarrow> U ''None'' | Some s \<Rightarrow> s)"

text \<open>\<open>x or d\<close>\<close>

definition or_else :: "ustr option \<Rightarrow> ustr \<Rightarrow> ustr" where
  "or_else x d = (case x of None \<Rightarrow> d | Some s \<Rightarrow> if s \<noteq> [] then s else d)"

text \<open>The value of a text that a test has found truthy.\<close>

definition str_val :: "ustr option \<Rightarrow> ustr" where
  "str_val x = (case x of None \<Rightarrow> [] | Some s \<Rightarrow> s)"

section \<open>Exceptions\<close>

text \<open>
  The exception classes the source distinguishes. \<open>OtherException\<close> is any other subclass
  of \<open>Exception\<close>; \<open>KeyboardInterrupt\<close> and \<open>SystemExit\<close> derive from \<open>BaseException\<close>
  only, so \<open>except Exception\<close> lets them pass. The text is \<open>str(e)\<close>.
\<close>

datatype exn =
    ValueError ustr
  | AttributeError ustr
  | TypeError ustr
  | EOFError ustr
  | OtherException ustr
  | KeyboardInterrupt
  | SystemExit int

fun is_ValueError :: "exn \<Rightarrow> bool" where
  "is_ValueError (ValueError m) = True"
| "is_ValueError e = False"

fun is_Exception :: "exn \<Rightarrow> bool" where
  "is_Exception KeyboardInterrupt = False"
| "is_Exception (SystemExit n) = False"
| "is_Exception e = True"

fun str_exn :: "exn \<Rightarrow> ustr" where
  "str_exn (ValueError m) = m"
| "str_exn (AttributeError m) = m"
| "str_exn (TypeError m) = m"
| "str_exn (EOFError m) = m"
| "str_exn (OtherException m) = m"
| "str_exn KeyboardInterrupt = []"
| "str_exn (SystemExit n) = str_int n"

section \<open>Effects\<close>

text \<open>
  What a run does is a list of events: text written to standard output, a prompt of
  \<open>input\<close>, a pause, and the calls on the collaborator. Every call of the constructor
  \<open>KeePassFunctions(path, with_gui)\<close> gets the next number; \<open>OpenOk n\<close> is the session
  with that number acquired, \<open>Released n\<close> is its release at the end of a \<open>with\<close> block.
\<close>

datatype kp_call =
    GetEntryCount
  | GetCredentials ustr
  | GetEntry ustr
  | SearchEntries "(string \<times> ustr) list" nat
  | UseSequence ustr
  | EntryExists ustr

datatype event =
    Stdout ustr
  | Prompt ustr
  | Sleep nat
  | OpenOk nat ustr bool
  | OpenFail nat ustr bool
  | Released nat
  | Call nat kp_call

text \<open>
  Standard input is the list of what each \<open>input()\<close> will meet: a line, or the user's
  interrupt. At the end of the input \<open>input()\<close> raises \<open>EOFError\<close>.
\<close>

datatype input_item = Line ustr | CtrlC

record state =
  stdin :: "input_item list"
  opens :: nat

type_synonym 'a prog = "state \<Rightarrow> event list \<times> (exn + 'a) \<times> state"

definition ret :: "'a \<Rightarrow> 'a prog" where
  "ret x s = ([], Inr x, s)"

definition raise :: "exn \<Rightarrow> 'a prog" where
  "raise e s = ([], Inl e, s)"

definition bind :: "'a prog \<Rightarrow> ('a \<Rightarrow> 'b prog) \<Rightarrow> 'b prog" where
  "bind m f s =
     (case m s of (evs, r, s') \<Rightarrow>
        (case r of
           Inl e \<Rightarrow> (evs, Inl e, s')
         | Inr x \<Rightarrow> (case f x s' of (evs', r', s'') \<Rightarrow> (evs @ evs', r', s''))))"

definition seq :: "'a prog \<Rightarrow> 'b prog \<Rightarrow> 'b prog" where
  "seq m n = bind m (\<lambda>_. n)"

fun block :: "unit prog list \<Rightarrow> unit prog" where
  "block [] = ret ()"
| "block (m # ms) = seq m (block ms)"

text \<open>\<open>try: m  except ... as e: h e\<close>; a handler that does not match re-raises.\<close>

definition try_except :: "'a prog \<Rightarrow> (exn \<Rightarrow> 'a prog) \<Rightarrow> 'a prog" where
  "try_except m h s =
     (case m s of (evs, r, s') \<Rightarrow>
        (case r of
           Inl e \<Rightarrow> (case h e s' of (evs', r', s'') \<Rightarrow> (evs @ evs', r', s''))
         | Inr x \<Rightarrow> (evs, Inr x, s')))"

definition emit :: "event \<Rightarrow> unit prog" where
  "emit ev s = ([ev], Inr (), s)"

text \<open>\<open>print(text)\<close> and \<open>print(text, end=e)\<close>\<close>

definition py_print :: "ustr \<Rightarrow> unit prog" where
  "py_print text = emit (Stdout (text @ [10]))"

definition py_print_end :: "ustr \<Rightarrow> ustr \<Rightarrow> unit prog" where
  "py_print_end text e = emit (Stdout (text @ e))"

definition py_input :: "ustr \<Rightarrow> ustr prog" where
  "py_input prompt s =
     (case stdin s of
        [] \<Rightarrow> ([Prompt prompt], Inl (EOFError (U ''EOF when reading a line'')), s)
      | Line l # rest \<Rightarrow> ([Prompt prompt], Inr l, s\<lparr>stdin := rest\<rparr>)
      | CtrlC # rest \<Rightarrow> ([Prompt prompt], Inl KeyboardInterrupt, s\<lparr>stdin := rest\<rparr>))"

definition sys_exit :: "int \<Rightarrow> 'a prog" where
  "sys_exit n = raise (SystemExit n)"

text \<open>
  \<open>logging.log(level, msg, *args)\<close>: both \<open>level\<close> and \<open>msg\<close> are required positional
  parameters, so a call with fewer arguments raises \<open>TypeError\<close> before anything is
  logged. The source only ever calls it with one argument.
\<close>

definition logging_log :: "ustr list \<Rightarrow> unit prog" where
  "logging_log positional =
     (case positional of
        level # msg # rest \<Rightarrow> ret ()
      | _ \<Rightarrow> raise (TypeError (U ''log() missing 1 required positional argument: '' @ q (U ''msg''))))"

section \<open>The collaborator\<close>

text \<open>An entry as the collaborator hands it back.\<close>

record entry =
  title :: "ustr option"
  username :: "ustr option"
  password :: "ustr option"
  url :: "ustr option"
  notes_attr :: "ustr option"
  autotype_sequence :: "ustr option"
  uuid :: nat

text \<open>
  The class \<open>KeePassFunctions\<close> is imported, not part of the two scripts: it is a
  parameter of the model. An open session is what its methods answer.
  Modelled from the spec: \<open>Session.lookup(title) -> Entry | NotFoundError\<close> is the one
  lookup behind \<open>get_credentials\<close>, whose plain form returns the pair of the entry's
  username and password and whose form with \<open>return_entry=True\<close> returns the entry;
  \<open>search_entries\<close> is the collaborator's search; it is called with keyword arguments,
  the texts to look for by the name of their keyword (the source passes \<open>title\<close> alone)
  and \<open>max_results\<close>; \<open>entry_exists\<close> answers with a count.
\<close>

record session =
  get_entry_count :: "exn + int"
  get_credentials :: "ustr \<Rightarrow> exn + entry"
  search_entries :: "(string \<times> ustr) list \<Rightarrow> nat \<Rightarrow> exn + entry list"
  use_KeePass_sequence :: "ustr \<Rightarrow> exn + unit"
  entry_exists :: "ustr \<Rightarrow> exn + int"

text \<open>
  The constructor: the number of the call, the path and \<open>with_gui\<close> decide whether the
  database opens and what the session answers.
\<close>

type_synonym keepass = "nat \<Rightarrow> ustr \<Rightarrow> bool \<Rightarrow> exn + session"

type_synonym handle = "session \<times> nat"

definition open_session :: "keepass \<Rightarrow> ustr \<Rightarrow> bool \<Rightarrow> handle prog" where
  "open_session KP path with_gui s =
     (let n = opens s; s1 = s\<lparr>opens := Suc n\<rparr> in
      case KP n path with_gui of
        Inl e \<Rightarrow> ([OpenFail n path with_gui], Inl e, s1)
      | Inr kp \<Rightarrow> ([OpenOk n path with_gui], Inr (kp, n), s1))"

text \<open>
  \<open>with KeePassFunctions(path, with_gui=g) as kp: body\<close>. Modelled from the spec: the
  session is released when the block is left, however it is left, and the release
  itself does not fail or swallow the exception.
\<close>

definition with_session :: "keepass \<Rightarrow> ustr \<Rightarrow> bool \<Rightarrow> (handle \<Rightarrow> 'a prog) \<Rightarrow> 'a prog" where
  "with_session KP path with_gui body s =
     (case open_session KP path with_gui s of (evs, r, s1) \<Rightarrow>
        (case r of
           Inl e \<Rightarrow> (evs, Inl e, s1)
         | Inr kp \<Rightarrow>
             (case body kp s1 of (evs', r', s2) \<Rightarrow>
                (evs @ evs' @ [Released (snd kp)], r', s2))))"

definition call :: "handle \<Rightarrow> kp_call \<Rightarrow> exn + 'a \<Rightarrow> 'a prog" where
  "call kp c answer s = ([Call (snd kp) c], answer, s)"

definition kp_get_entry_count :: "handle \<Rightarrow> int prog" where
  "kp_get_entry_count kp = call kp GetEntryCount (get_entry_count (fst kp))"

definition kp_get_credentials :: "handle \<Rightarrow> ustr \<Rightarrow> (ustr option \<times> ustr option) prog" where
  "kp_get_credentials kp t =
     call kp (GetCredentials t)
       (case get_credentials (fst kp) t of
          Inl e \<Rightarrow> Inl e
        | Inr en \<Rightarrow> Inr (username en, password en))"

definition kp_get_entry :: "handle \<Rightarrow> ustr \<Rightarrow> entry prog" where
  "kp_get_entry kp t = call kp (GetEntry t) (get_credentials (fst kp) t)"

text \<open>\<open>kp.search_entries(**keywords, max_results=max_results)\<close>\<close>

definition kp_search_entries ::
  "handle \<Rightarrow> (string \<times> ustr) list \<Rightarrow> nat \<Rightarrow> entry list prog" where
  "kp_search_entries kp keywords max_results =
     call kp (SearchEntries keywords max_results)
       (search_entries (fst kp) keywords max_results)"

definition kp_use_KeePass_sequence :: "handle \<Rightarrow> ustr \<Rightarrow> unit prog" where
  "kp_use_KeePass_sequence kp t = call kp (UseSequence t) (use_KeePass_sequence (fst kp) t)"

definition kp_entry_exists :: "handle \<Rightarrow> ustr \<Rightarrow> int prog" where
  "kp_entry_exists kp term = call kp (EntryExists term) (entry_exists (fst kp) term)"

section \<open>The demo handlers of demo.py\<close>

text \<open>The symbols of the messages.\<close>

definition sym_check :: ustr where "sym_check = [10003]"
definition sym_cross :: ustr where "sym_cross = [10060]"
definition sym_clipboard :: ustr where "sym_clipboard = [128203]"
definition sym_warning :: ustr where "sym_warning = [9888, 65039]"
definition sym_stopwatch :: ustr where "sym_stopwatch = [9201, 65039]"
definition sym_rocket :: ustr where "sym_rocket = [128640]"
definition sym_glass :: ustr where "sym_glass = [128269]"
definition sym_memo :: ustr where "sym_memo = [128221]"
definition sym_bust :: ustr where "sym_bust = [128100]"
definition sym_globe :: ustr where "sym_globe = [127760]"
definition sym_arrows :: ustr where "sym_arrows = [128260]"
definition sym_one :: ustr where "sym_one = [49, 65039, 8419]"
definition sym_two :: ustr where "sym_two = [50, 65039, 8419]"
definition sym_party :: ustr where "sym_party = [127881]"
definition sym_lock :: ustr where "sym_lock = [128272]"

definition input_method :: "bool \<Rightarrow> ustr" where
  "input_method with_gui = (if with_gui then U ''GUI'' else U ''console'')"

text \<open>
  The password as every handler shows it (lines 56, 111, 124 and 276 of demo.py):
  \<open>'*' * len(password) if password else 'N/A'\<close>.
\<close>

definition masked :: "ustr option \<Rightarrow> ustr" where
  "masked p =
     (case p of
        None \<Rightarrow> U ''N/A''
      | Some s \<Rightarrow> if s \<noteq> [] then replicate (length s) 42 else U ''N/A'')"

text \<open>
  The notes of line 58:
  \<open>entry.notes[:100] + '...' if entry.notes and len(entry.notes) > 100 else entry.notes or 'N/A'\<close>.
\<close>

definition notes_text :: "ustr option \<Rightarrow> ustr" where
  "notes_text n =
     (case n of
        None \<Rightarrow> U ''N/A''
      | Some s \<Rightarrow>
          if s \<noteq> [] \<and> length s > 100 then take 100 s @ U ''...''
          else if s \<noteq> [] then s else U ''N/A'')"

definition get_full_entry_demo :: "keepass \<Rightarrow> ustr \<Rightarrow> ustr \<Rightarrow> bool \<Rightarrow> unit prog" where
  "get_full_entry_demo KP db_path entry_title with_gui =
     seq (py_print (U ''Getting full entry details for: '' @ q entry_title @
                    U '' (using '' @ input_method with_gui @ U '' input)''))
       (try_except
          (with_session KP db_path with_gui (\<lambda>kp.
             bind (kp_get_entry kp entry_title) (\<lambda>en.
               block [
                 py_print ([10] @ sym_clipboard @ U '' Entry Details:''),
                 py_print (U ''   Title: '' @ fmt (title en)),
                 py_print (U ''   Username: '' @ or_else (username en) (U ''N/A'')),
                 py_print (U ''   Password: '' @ masked (password en)),
                 py_print (U ''   URL: '' @ or_else (url en) (U ''N/A'')),
                 py_print (U ''   Notes: '' @ notes_text (notes_attr en)),
                 py_print (U ''   Has Autotype: '' @
                           (if truthy (autotype_sequence en) then U ''Yes'' else U ''No'')),
                 if truthy (autotype_sequence en)
                 then py_print (U ''   Autotype Sequence: '' @ fmt (autotype_sequence en))
                 else ret ()])))
          (\<lambda>e. if is_ValueError e then py_print (sym_cross @ U '' Entry not found: '' @ str_exn e)
                else if is_Exception e
                then py_print (sym_cross @ U '' Error getting entry details: '' @ str_exn e)
                else raise e))"

definition get_credentials_demo :: "keepass \<Rightarrow> ustr \<Rightarrow> ustr \<Rightarrow> bool \<Rightarrow> unit prog" where
  "get_credentials_demo KP db_path entry_title with_gui =
     seq (py_print (U ''Getting credentials for entry: '' @ q entry_title @
                    U '' (using '' @ input_method with_gui @ U '' input)''))
       (try_except
          (with_session KP db_path with_gui (\<lambda>kp.
             bind (kp_get_credentials kp entry_title) (\<lambda>(user, pw).
               seq (py_print (sym_check @ U '' Username: '' @ fmt user))
                   (py_print (sym_check @ U '' Password: '' @ masked pw)))))
          (\<lambda>e. if is_ValueError e then py_print (sym_cross @ U '' Entry not found: '' @ str_exn e)
                else if is_Exception e
                then py_print (sym_cross @ U '' Error getting credentials: '' @ str_exn e)
                else raise e))"

fun countdown :: "nat \<Rightarrow> unit prog" where
  "countdown 0 = ret ()"
| "countdown (Suc n) =
     seq (py_print_end (sym_stopwatch @ U ''  Starting autotype in '' @ str_nat (Suc n) @
                        U '' seconds...'') [13])
       (seq (emit (Sleep 1)) (countdown n))"

definition autotype_demo :: "keepass \<Rightarrow> ustr \<Rightarrow> ustr \<Rightarrow> bool \<Rightarrow> unit prog" where
  "autotype_demo KP db_path entry_title with_gui =
     seq (py_print (U ''Executing autotype sequence for entry: '' @ q entry_title @
                    U '' (using '' @ input_method with_gui @ U '' input)''))
    (seq (py_print (sym_warning @ U ''  Make sure the target application window is active!''))
    (seq (countdown 5)
    (seq (py_print ([10] @ sym_rocket @ U '' Executing autotype sequence...''))
       (try_except
          (with_session KP db_path with_gui (\<lambda>kp.
             seq (kp_use_KeePass_sequence kp entry_title)
                 (py_print (sym_check @ U '' Autotype sequence completed successfully!''))))
          (\<lambda>e. if is_ValueError e then py_print (sym_cross @ U '' Error: '' @ str_exn e)
                else if is_Exception e
                then py_print (sym_cross @ U '' Error executing autotype: '' @ str_exn e)
                else raise e)))))"

text \<open>
  A Python \<open>dict\<close> keeps its keys in the order of their first insertion; storing under a
  key that is present replaces the value where it stands. \<open>unique_entries\<close> is
  \<open>list({entry.uuid: entry for entry in entries}.values())\<close>.
\<close>

fun dict_set :: "('k \<times> 'v) list \<Rightarrow> 'k \<Rightarrow> 'v \<Rightarrow> ('k \<times> 'v) list" where
  "dict_set [] k v = [(k, v)]"
| "dict_set ((k', v') # d) k v =
     (if k' = k then (k', v) # d else (k', v') # dict_set d k v)"

definition unique_entries :: "entry list \<Rightarrow> entry list" where
  "unique_entries entries = map snd (foldl (\<lambda>d en. dict_set d (uuid en) en) [] entries)"

text \<open>\<open>for i, entry in enumerate(unique_entries, 1): ...\<close>\<close>

fun print_entries :: "nat \<Rightarrow> entry list \<Rightarrow> unit prog" where
  "print_entries i [] = ret ()"
| "print_entries i (en # ens) =
     seq (py_print (str_nat i @ U ''. '' @ sym_memo @ U '' '' @ fmt (title en)))
    (seq (if truthy (username en)
          then py_print (U ''   '' @ sym_bust @ U '' Username: '' @ fmt (username en))
          else ret ())
    (seq (if truthy (url en)
          then py_print (U ''   '' @ sym_globe @ U '' URL: '' @ fmt (url en))
          else ret ())
    (seq (py_print [])
         (print_entries (Suc i) ens))))"

definition search_entries_demo :: "keepass \<Rightarrow> ustr \<Rightarrow> ustr \<Rightarrow> bool \<Rightarrow> unit prog" where
  "search_entries_demo KP db_path search_term with_gui =
     seq (py_print (sym_glass @ U '' Searching for entries containing '' @ q search_term @
                    U '' (using '' @ input_method with_gui @ U '' input):''))
       (try_except
          (with_session KP db_path with_gui (\<lambda>kp.
             bind (kp_search_entries kp [(''title'', search_term)] 10) (\<lambda>entries.
               let unique = unique_entries entries in
               if unique = []
               then py_print (sym_cross @ U '' No entries found containing '' @
                              q search_term @ U ''.'')
               else
                 seq (py_print ([10] @ sym_check @ U '' Found '' @ str_nat (length unique) @
                                U '' matching entries:''))
                (seq (py_print (replicate 60 45))
                     (print_entries 1 unique)))))
          (\<lambda>e. if is_Exception e
                then py_print (sym_cross @ U '' Error searching entries: '' @ str_exn e)
                else raise e))"

text \<open>
  \<open>gui_comparison_demo\<close>. The first \<open>try\<close> answers whether the function goes on: its
  handler ends with \<open>return\<close>.
\<close>

definition comparison_pass :: "keepass \<Rightarrow> ustr \<Rightarrow> bool \<Rightarrow> unit prog" where
  "comparison_pass KP db_path with_gui =
     with_session KP db_path with_gui (\<lambda>kp.
       bind (kp_get_entry_count kp) (\<lambda>entries_count.
         seq (py_print (U ''   '' @ sym_check @ U '' Successfully opened database with > '' @
                        str_int entries_count @ U '' < entries''))
             (logging_log [U ''with KeePassFunctions(db_path, with_gui='' @
                           (if with_gui then U ''True'' else U ''False'') @ U '') as kp:'' @
                           [10, 9] @ U ''entries_count = kp.get_entry_count()''])))"

definition gui_comparison_demo :: "keepass \<Rightarrow> unit prog" where
  "gui_comparison_demo KP =
     seq (py_print ([10] @ sym_arrows @ U '' GUI vs Console Input Comparison Demo''))
    (seq (py_print (replicate 50 61))
    (bind (py_input (U ''Enter path to KeePass database file for comparison: '')) (\<lambda>line.
       let db_path = strip line in
       if db_path = []
       then py_print (U ''No database path provided. Skipping comparison demo.'')
       else
         try_except
           (seq (py_print ([10] @ sym_one @ U ''  Testing with CONSOLE input:''))
           (seq (py_print (U ''   You'' @ [39] @ U ''ll be prompted for password in the terminal''))
           (bind (try_except
                    (seq (comparison_pass KP db_path False) (ret True))
                    (\<lambda>e. if is_Exception e
                          then seq (py_print (U ''   '' @ sym_cross @
                                              U '' Console input failed: '' @ str_exn e))
                                   (ret False)
                          else raise e))
              (\<lambda>go_on.
                 if \<not> go_on then ret ()
                 else
                   seq (py_print ([10] @ sym_two @ U ''  Testing with GUI input:''))
                  (seq (py_print (U ''   You'' @ [39] @
                                  U ''ll see a GUI dialog for password input''))
                  (seq (try_except
                          (comparison_pass KP db_path True)
                          (\<lambda>e. if is_Exception e
                                then py_print (U ''   '' @ sym_cross @
                                               U '' GUI input failed: '' @ str_exn e)
                                else raise e))
                       (py_print ([10] @ sym_party @
                                  U '' Comparison complete! Both input methods work.''))))))))
           (\<lambda>e. if is_Exception e
                 then py_print (sym_cross @ U '' Comparison demo failed: '' @ str_exn e)
                 else raise e))))"


section \<open>Interactive mode\<close>

text \<open>The path that line 76 of demo.py assigns: \<open>'~\\Losenordslista_SD_Personlig.kdbx'\<close>.\<close>

definition interactive_db_path :: ustr where
  "interactive_db_path = U ''~'' @ [92] @ U ''Losenordslista_SD_Personlig.kdbx''"

definition menu_search :: "handle \<Rightarrow> unit prog" where
  "menu_search kp =
     bind (py_input (U ''Enter search term: '')) (\<lambda>line.
       let search_term = strip line in
       if search_term \<noteq> []
       then bind (kp_entry_exists kp search_term) (\<lambda>entries.
              if entries \<noteq> 0
              then py_print ([10] @ q search_term @ U '' was found as title for > '' @
                             str_int entries @ U '' < entries.'')
              else py_print (U ''No entries found containing '' @ q search_term @ U ''.''))
       else ret ())"

definition menu_credentials :: "handle \<Rightarrow> unit prog" where
  "menu_credentials kp =
     bind (py_input (U ''Enter entry title: '')) (\<lambda>line.
       let entry_title = strip line in
       if entry_title \<noteq> []
       then try_except
              (bind (kp_get_credentials kp entry_title) (\<lambda>(user, pw).
                 seq (py_print (U ''Username: '' @ fmt user))
                     (py_print (U ''Password: '' @ masked pw))))
              (\<lambda>e. if is_ValueError e then py_print (U ''Error: '' @ str_exn e) else raise e)
       else ret ())"

definition menu_full_entry :: "handle \<Rightarrow> unit prog" where
  "menu_full_entry kp =
     bind (py_input (U ''Enter entry title: '')) (\<lambda>line.
       let entry_title = strip line in
       if entry_title \<noteq> []
       then try_except
              (bind (kp_get_entry kp entry_title) (\<lambda>en.
                 block [
                   py_print ([10] @ U ''Entry Details:''),
                   py_print (U ''Title: '' @ fmt (title en)),
                   py_print (U ''Username: '' @ fmt (username en)),
                   py_print (U ''Password: '' @ masked (password en)),
                   py_print (U ''URL: '' @ or_else (url en) (U ''N/A'')),
                   py_print (U ''Notes: '' @ or_else (notes_attr en) (U ''N/A'')),
                   py_print (U ''Autotype Sequence: '' @
                             or_else (autotype_sequence en) (U ''N/A''))]))
              (\<lambda>e. if is_ValueError e then py_print (U ''Error: '' @ str_exn e) else raise e)
       else ret ())"

definition menu_autotype :: "handle \<Rightarrow> unit prog" where
  "menu_autotype kp =
     bind (py_input (U ''Enter entry title for autotype: '')) (\<lambda>line.
       let entry_title = strip line in
       if entry_title \<noteq> []
       then seq (py_print (U ''Make sure the target window is active!''))
           (seq (py_input (U ''Press Enter when ready...''))
                (try_except
                   (seq (kp_use_KeePass_sequence kp entry_title)
                        (py_print (U ''Autotype sequence executed!'')))
                   (\<lambda>e. if is_ValueError e then py_print (U ''Error: '' @ str_exn e)
                         else if is_Exception e
                         then py_print (U ''Error executing autotype: '' @ str_exn e)
                         else raise e)))
       else ret ())"

text \<open>
  One pass of the body of \<open>while True\<close>: it answers whether the loop goes on (\<open>False\<close>
  is the \<open>break\<close> of choice 6).
\<close>

definition menu_pass :: "keepass \<Rightarrow> handle \<Rightarrow> bool prog" where
  "menu_pass KP kp =
     seq (block [
            py_print ([10] @ replicate 50 61),
            py_print (U ''Available actions:''),
            py_print (U ''1. Search entries''),
            py_print (U ''2. Get credentials''),
            py_print (U ''3. Get full entry details''),
            py_print (U ''4. Execute autotype sequence''),
            py_print (U ''5. Compare GUI vs console''),
            py_print (U ''6. Exit'')])
       (bind (py_input ([10] @ U ''Enter your choice (1-6): '')) (\<lambda>line.
          let choice = strip line in
          if choice = U ''1'' then seq (menu_search kp) (ret True)
          else if choice = U ''2'' then seq (menu_credentials kp) (ret True)
          else if choice = U ''3'' then seq (menu_full_entry kp) (ret True)
          else if choice = U ''4'' then seq (menu_autotype kp) (ret True)
          else if choice = U ''5'' then seq (gui_comparison_demo KP) (ret True)
          else if choice = U ''6'' then seq (py_print (U ''Exiting interactive mode...'')) (ret False)
          else seq (py_print (U ''Invalid choice. Please enter 1-6.'')) (ret True)))"

text \<open>The menu that every pass of the interactive loop prints (lines 84 to 91).\<close>

definition menu_lines :: "event list" where
  "menu_lines =
     [Stdout ([10] @ replicate 50 61 @ [10]),
      Stdout (U ''Available actions:'' @ [10]),
      Stdout (U ''1. Search entries'' @ [10]),
      Stdout (U ''2. Get credentials'' @ [10]),
      Stdout (U ''3. Get full entry details'' @ [10]),
      Stdout (U ''4. Execute autotype sequence'' @ [10]),
      Stdout (U ''5. Compare GUI vs console'' @ [10]),
      Stdout (U ''6. Exit'' @ [10])]"

function menu_loop :: "keepass \<Rightarrow> handle \<Rightarrow> unit prog" where
  "menu_loop KP kp s =
     (case menu_pass KP kp s of (evs, r, s') \<Rightarrow>
        (case r of
           Inl e \<Rightarrow> (evs, Inl e, s')
         | Inr go_on \<Rightarrow>
             if go_on
             then (case menu_loop KP kp s' of (evs', r', s'') \<Rightarrow> (evs @ evs', r', s''))
             else (evs, Inr (), s')))"
  by pat_completeness auto

text \<open>
  The loop ends: a pass that goes on has read at least the choice, and no operation puts
  input back.
\<close>

definition keeps_input :: "'a prog \<Rightarrow> bool" where
  "keeps_input m = (\<forall>s. length (stdin (snd (snd (m s)))) \<le> length (stdin s))"

definition reads_input :: "'a prog \<Rightarrow> bool" where
  "reads_input m =
     (\<forall>s evs x s'. m s = (evs, Inr x, s') \<longrightarrow> length (stdin s') < length (stdin s))"

lemma keeps_input_ret: "keeps_input (ret x)"
  by (simp add: keeps_input_def ret_def)

lemma keeps_input_raise: "keeps_input (raise e)"
  by (simp add: keeps_input_def raise_def)

lemma keeps_input_sys_exit: "keeps_input (sys_exit n)"
  by (simp add: sys_exit_def keeps_input_raise)

lemma keeps_input_emit: "keeps_input (emit ev)"
  by (simp add: keeps_input_def emit_def)

lemma keeps_input_py_print: "keeps_input (py_print t)"
  by (simp add: py_print_def keeps_input_emit)

lemma keeps_input_py_print_end: "keeps_input (py_print_end t e)"
  by (simp add: py_print_end_def keeps_input_emit)

lemma keeps_input_py_input: "keeps_input (py_input p)"
  by (simp add: keeps_input_def py_input_def split: list.splits input_item.splits)

lemma keeps_input_call: "keeps_input (call kp c a)"
  by (simp add: keeps_input_def call_def)

lemma keeps_input_logging_log: "keeps_input (logging_log xs)"
  by (simp add: logging_log_def keeps_input_ret keeps_input_raise split: list.splits)

lemma keeps_input_bind:
  assumes "keeps_input m" and "\<And>x. keeps_input (f x)"
  shows "keeps_input (bind m f)"
  unfolding keeps_input_def
proof
  fix s
  obtain evs r s' where ms: "m s = (evs, r, s')"
    by (cases "m s") auto
  have le1: "length (stdin s') \<le> length (stdin s)"
    using assms(1) ms by (auto simp: keeps_input_def dest: spec [where x = s])
  show "length (stdin (snd (snd (bind m f s)))) \<le> length (stdin s)"
  proof (cases r)
    case (Inl e)
    then show ?thesis using ms le1 by (simp add: bind_def)
  next
    case (Inr x)
    obtain evs' r' s'' where fs: "f x s' = (evs', r', s'')"
      by (cases "f x s'") auto
    have "length (stdin s'') \<le> length (stdin s')"
      using assms(2) [of x] fs by (auto simp: keeps_input_def dest: spec [where x = s'])
    then show ?thesis using ms Inr fs le1 by (simp add: bind_def)
  qed
qed

lemma keeps_input_seq: "keeps_input m \<Longrightarrow> keeps_input n \<Longrightarrow> keeps_input (seq m n)"
  by (simp add: seq_def keeps_input_bind)

lemma keeps_input_block: "(\<And>m. m \<in> set ms \<Longrightarrow> keeps_input m) \<Longrightarrow> keeps_input (block ms)"
  by (induction ms) (simp_all add: keeps_input_ret keeps_input_seq)

lemma keeps_input_try_except:
  assumes "keeps_input m" and "\<And>e. keeps_input (h e)"
  shows "keeps_input (try_except m h)"
  unfolding keeps_input_def
proof
  fix s
  obtain evs r s' where ms: "m s = (evs, r, s')"
    by (cases "m s") auto
  have le1: "length (stdin s') \<le> length (stdin s)"
    using assms(1) ms by (auto simp: keeps_input_def dest: spec [where x = s])
  show "length (stdin (snd (snd (try_except m h s)))) \<le> length (stdin s)"
  proof (cases r)
    case (Inr x)
    then show ?thesis using ms le1 by (simp add: try_except_def)
  next
    case (Inl e)
    obtain evs' r' s'' where hs: "h e s' = (evs', r', s'')"
      by (cases "h e s'") auto
    have "length (stdin s'') \<le> length (stdin s')"
      using assms(2) [of e] hs by (auto simp: keeps_input_def dest: spec [where x = s'])
    then show ?thesis using ms Inl hs le1 by (simp add: try_except_def)
  qed
qed

lemma keeps_input_open_session: "keeps_input (open_session KP path g)"
  by (simp add: keeps_input_def open_session_def Let_def split: sum.splits)

lemma keeps_input_with_session:
  assumes "\<And>kp. keeps_input (body kp)"
  shows "keeps_input (with_session KP path g body)"
  unfolding keeps_input_def
proof
  fix s
  obtain evs r s1 where os: "open_session KP path g s = (evs, r, s1)"
    by (cases "open_session KP path g s") auto
  have le1: "length (stdin s1) \<le> length (stdin s)"
    using keeps_input_open_session [of KP path g] os
    by (auto simp: keeps_input_def dest: spec [where x = s])
  show "length (stdin (snd (snd (with_session KP path g body s)))) \<le> length (stdin s)"
  proof (cases r)
    case (Inl e)
    then show ?thesis using os le1 by (simp add: with_session_def)
  next
    case (Inr kp)
    obtain evs' r' s2 where bs: "body kp s1 = (evs', r', s2)"
      by (cases "body kp s1") auto
    have "length (stdin s2) \<le> length (stdin s1)"
      using assms [of kp] bs by (auto simp: keeps_input_def dest: spec [where x = s1])
    then show ?thesis using os Inr bs le1 by (simp add: with_session_def)
  qed
qed

lemmas keeps_input_intros =
  keeps_input_ret keeps_input_raise keeps_input_sys_exit keeps_input_emit keeps_input_py_print
  keeps_input_py_print_end keeps_input_py_input keeps_input_call keeps_input_logging_log
  keeps_input_bind keeps_input_seq keeps_input_try_except keeps_input_with_session

lemma keeps_input_comparison_pass: "keeps_input (comparison_pass KP db_path g)"
  unfolding comparison_pass_def kp_get_entry_count_def
  by (intro keeps_input_intros)

lemma keeps_input_gui_comparison_demo: "keeps_input (gui_comparison_demo KP)"
  unfolding gui_comparison_demo_def Let_def
  by (intro keeps_input_intros keeps_input_comparison_pass allI
        | simp only: if_distrib [of keeps_input] split: if_split | rule conjI impI)+

lemma keeps_input_if: "keeps_input a \<Longrightarrow> keeps_input b \<Longrightarrow> keeps_input (if c then a else b)"
  by simp

lemma keeps_input_case_prod: "(\<And>a b. keeps_input (f a b)) \<Longrightarrow> keeps_input (case p of (a, b) \<Rightarrow> f a b)"
  by (cases p) simp

lemma keeps_input_menu_search: "keeps_input (menu_search kp)"
  unfolding menu_search_def Let_def kp_entry_exists_def
  by (intro keeps_input_intros keeps_input_if)

lemma keeps_input_menu_credentials: "keeps_input (menu_credentials kp)"
  unfolding menu_credentials_def Let_def kp_get_credentials_def
  by (intro keeps_input_intros keeps_input_if keeps_input_case_prod)

lemma keeps_input_menu_full_entry: "keeps_input (menu_full_entry kp)"
  unfolding menu_full_entry_def Let_def kp_get_entry_def block.simps
  by (intro keeps_input_intros keeps_input_if)

lemma keeps_input_menu_autotype: "keeps_input (menu_autotype kp)"
  unfolding menu_autotype_def Let_def kp_use_KeePass_sequence_def
  by (intro keeps_input_intros keeps_input_if)

lemma reads_input_py_input: "reads_input (py_input p)"
  by (auto simp: reads_input_def py_input_def split: list.splits input_item.splits)

lemma reads_input_bind:
  assumes "reads_input m" and "\<And>x. keeps_input (f x)"
  shows "reads_input (bind m f)"
  unfolding reads_input_def
proof (intro allI impI)
  fix s evs y s''
  assume b: "bind m f s = (evs, Inr y, s'')"
  obtain evs1 r s' where ms: "m s = (evs1, r, s')"
    by (cases "m s") auto
  from b ms obtain x where r: "r = Inr x"
    by (cases r) (auto simp: bind_def)
  have lt: "length (stdin s') < length (stdin s)"
    using assms(1) ms r by (auto simp: reads_input_def)
  obtain evs2 r2 s2 where fs: "f x s' = (evs2, r2, s2)"
    by (cases "f x s'") auto
  have "length (stdin s2) \<le> length (stdin s')"
    using assms(2) [of x] fs by (auto simp: keeps_input_def dest: spec [where x = s'])
  moreover have "s'' = s2"
    using b ms r fs by (simp add: bind_def)
  ultimately show "length (stdin s'') < length (stdin s)"
    using lt by simp
qed

lemma reads_input_after:
  assumes "keeps_input m" and "reads_input n"
  shows "reads_input (seq m n)"
  unfolding reads_input_def
proof (intro allI impI)
  fix s evs y s''
  assume b: "seq m n s = (evs, Inr y, s'')"
  obtain evs1 r s' where ms: "m s = (evs1, r, s')"
    by (cases "m s") auto
  from b ms obtain x where r: "r = Inr x"
    by (cases r) (auto simp: seq_def bind_def)
  have le: "length (stdin s') \<le> length (stdin s)"
    using assms(1) ms by (auto simp: keeps_input_def dest: spec [where x = s])
  obtain evs2 r2 s2 where ns: "n s' = (evs2, r2, s2)"
    by (cases "n s'") auto
  have eq: "s'' = s2" and r2: "r2 = Inr y"
    using b ms r ns by (simp_all add: seq_def bind_def)
  have "length (stdin s2) < length (stdin s')"
    using assms(2) ns r2 by (auto simp: reads_input_def)
  then show "length (stdin s'') < length (stdin s)"
    using le eq by simp
qed

lemma reads_input_menu_pass: "reads_input (menu_pass KP kp)"
  unfolding menu_pass_def Let_def block.simps
  by (intro reads_input_after reads_input_bind reads_input_py_input keeps_input_intros
        keeps_input_if keeps_input_menu_search keeps_input_menu_credentials
        keeps_input_menu_full_entry keeps_input_menu_autotype keeps_input_gui_comparison_demo)

termination menu_loop
proof (relation "measure (\<lambda>(KP, kp, s). length (stdin s))")
  show "wf (measure (\<lambda>(KP, kp, s). length (stdin s)))"
    by simp
next
  fix KP :: keepass and kp :: handle and s :: state
    and x y xa ya and b :: bool
  assume "(x, y) = menu_pass KP kp s" and "(xa, ya) = y" and "xa = Inr b" and "b"
  then have "menu_pass KP kp s = (x, Inr b, ya)"
    by (metis)
  then have "length (stdin ya) < length (stdin s)"
    using reads_input_menu_pass [of KP kp] by (auto simp: reads_input_def)
  then show "((KP, kp, ya), KP, kp, s) \<in> measure (\<lambda>(KP, kp, s). length (stdin s))"
    by simp
qed

declare menu_loop.simps [simp del]

definition interactive_mode :: "keepass \<Rightarrow> bool \<Rightarrow> unit prog" where
  "interactive_mode KP with_gui =
     seq (py_print ([10] @ U ''=== KeePass Interactive Mode (using '' @ input_method with_gui @
                    U '' input) ===''))
       (let db_path = interactive_db_path in
        if db_path = []
        then py_print (U ''No database path provided. Exiting.'')
        else
          try_except
            (with_session KP db_path with_gui (\<lambda>kp. menu_loop KP kp))
            (\<lambda>e. if is_Exception e
                  then py_print (U ''Error in interactive mode: '' @ str_exn e)
                  else raise e))"

section \<open>The argument resolver\<close>

text \<open>
  The parsed arguments: one attribute for every \<open>add_argument\<close> of \<open>main\<close> (lines 175 to
  200), a flag for \<open>action='store_true'\<close> and an optional text for \<open>type=str\<close>.
\<close>

record args =
  arg_db :: "ustr option"
  arg_gui :: bool
  arg_entry :: "ustr option"
  arg_search :: "ustr option"
  arg_get_credentials :: bool
  arg_get_full_entry :: bool
  arg_autotype :: bool
  arg_interactive :: bool
  arg_verbose :: bool

datatype argval = Flag bool | Text "ustr option"

text \<open>The namespace \<open>parse_args\<close> returns: the attributes by name, and no other.\<close>

definition namespace :: "args \<Rightarrow> (string \<times> argval) list" where
  "namespace a =
     [(''db'', Text (arg_db a)),
      (''gui'', Flag (arg_gui a)),
      (''entry'', Text (arg_entry a)),
      (''search'', Text (arg_search a)),
      (''get_credentials'', Flag (arg_get_credentials a)),
      (''get_full_entry'', Flag (arg_get_full_entry a)),
      (''autotype'', Flag (arg_autotype a)),
      (''interactive'', Flag (arg_interactive a)),
      (''verbose'', Flag (arg_verbose a))]"

text \<open>\<open>args.name\<close>\<close>

definition getattr :: "args \<Rightarrow> string \<Rightarrow> argval prog" where
  "getattr a name =
     (case map_of (namespace a) name of
        Some v \<Rightarrow> ret v
      | None \<Rightarrow> raise (AttributeError (q (U ''Namespace'') @ U '' object has no attribute '' @
                                       q (U name))))"

text \<open>\<open>bool(x)\<close>, and \<open>sum\<close> over values that are flags (\<open>True\<close> counts 1).\<close>

fun py_bool :: "argval \<Rightarrow> bool" where
  "py_bool (Flag b) = b"
| "py_bool (Text t) = truthy t"

fun py_sum :: "argval list \<Rightarrow> int prog" where
  "py_sum [] = ret 0"
| "py_sum (Flag b # vs) = bind (py_sum vs) (\<lambda>n. ret ((if b then 1 else 0) + n))"
| "py_sum (Text t # vs) =
     raise (TypeError (U ''unsupported operand type(s) for +: '' @ q (U ''int'') @ U '' and '' @
                       q (case t of None \<Rightarrow> U ''NoneType'' | Some x \<Rightarrow> U ''str'')))"

text \<open>Lines 222 to 228: the elements of the list are evaluated in order, then summed.\<close>

definition action_count :: "args \<Rightarrow> int prog" where
  "action_count a =
     bind (getattr a ''get_credentials'') (\<lambda>v1.
     bind (getattr a ''get_full_entry'') (\<lambda>v2.
     bind (getattr a ''autotype'') (\<lambda>v3.
     bind (getattr a ''list_entries'') (\<lambda>v4.
     bind (getattr a ''search'') (\<lambda>v5.
       py_sum [v1, v2, v3, v4, Flag (py_bool v5)])))))"

text \<open>\<open>setup_logging\<close> configures the logging module; it writes nothing itself.\<close>

definition setup_logging :: "bool \<Rightarrow> unit prog" where
  "setup_logging verbose = ret ()"

definition dispatch :: "keepass \<Rightarrow> args \<Rightarrow> ustr \<Rightarrow> unit prog" where
  "dispatch KP a db_path =
     (if truthy (arg_search a)
      then search_entries_demo KP db_path (str_val (arg_search a)) (arg_gui a)
      else if arg_get_credentials a
      then (if \<not> truthy (arg_entry a)
            then seq (py_print (U ''Error: --entry is required for --get-credentials''))
                     (sys_exit 1)
            else get_credentials_demo KP db_path (str_val (arg_entry a)) (arg_gui a))
      else if arg_get_full_entry a
      then (if \<not> truthy (arg_entry a)
            then seq (py_print (U ''Error: --entry is required for --get-full-entry''))
                     (sys_exit 1)
            else get_full_entry_demo KP db_path (str_val (arg_entry a)) (arg_gui a))
      else if arg_autotype a
      then (if \<not> truthy (arg_entry a)
            then seq (py_print (U ''Error: --entry is required for --autotype''))
                     (sys_exit 1)
            else autotype_demo KP db_path (str_val (arg_entry a)) (arg_gui a))
      else ret ())"

text \<open>\<open>main\<close> from line 204 on, with the arguments parsed.\<close>

definition main_body :: "keepass \<Rightarrow> args \<Rightarrow> unit prog" where
  "main_body KP a =
     seq (setup_logging (arg_verbose a))
       (if arg_interactive a then interactive_mode KP (arg_gui a)
        else if \<not> truthy (arg_db a)
        then seq (py_print (U ''Error: --db is required for non-interactive mode''))
            (seq (py_print (U ''Use --interactive for interactive mode or --help for usage information''))
                 (sys_exit 1))
        else
          (let db_path = str_val (arg_db a) in
           bind (action_count a) (\<lambda>n.
             if n = 0
             then seq (py_print (U ''Error: No action specified. Use --help for available actions.''))
                      (sys_exit 1)
             else if n > 1
             then seq (py_print (U ''Error: Only one action can be specified at a time.''))
                      (sys_exit 1)
             else
               try_except (dispatch KP a db_path)
                 (\<lambda>e. if e = KeyboardInterrupt
                       then seq (py_print ([10, 10] @ U ''Operation cancelled by user.''))
                                (sys_exit 0)
                       else if is_Exception e
                       then seq (py_print (U ''Unexpected error: '' @ str_exn e)) (sys_exit 1)
                       else raise e))))"

text \<open>
  \<open>argparse\<close> is a library: what \<open>parser.parse_args()\<close> makes of the command line is a
  parameter. It either returns the arguments or leaves through \<open>SystemExit\<close> (status 0
  after \<open>--help\<close>, 2 after a usage error).
\<close>

type_synonym parser = "ustr list \<Rightarrow> exn + args"

definition main :: "keepass \<Rightarrow> parser \<Rightarrow> ustr list \<Rightarrow> unit prog" where
  "main KP parse_args argv =
     (case parse_args (tl argv) of
        Inl e \<Rightarrow> raise e
      | Inr a \<Rightarrow> main_body KP a)"

text \<open>The block under \<open>if __name__ == "__main__"\<close>; \<open>argv\<close> is \<open>sys.argv\<close>.\<close>

definition script :: "keepass \<Rightarrow> parser \<Rightarrow> ustr list \<Rightarrow> unit prog" where
  "script KP parse_args argv =
     seq (py_print (sym_lock @ U '' KeePass Functions Demo Script''))
    (seq (py_print (replicate 40 61))
       (if length argv = 1
        then
          seq (block [
                 py_print (U ''No arguments provided. Here are some quick examples:''),
                 py_print ([10] @ U ''Quick start options:''),
                 py_print (U ''  python demo.py --interactive           # Interactive mode with console input''),
                 py_print (U ''  python demo.py --interactive --gui     # Interactive mode with GUI input''),
                 py_print (U ''  python demo.py --help                  # Show all options''),
                 py_print ([10] @ U ''For GUI vs Console comparison:''),
                 py_print (U ''  python demo.py --compare''),
                 py_print []])
         (bind (py_input (U ''Would you like to start in interactive mode? (y/N): '')) (\<lambda>line.
            let choice = lower (strip line) in
            seq (if choice \<in> set [U ''y'', U ''yes'']
                 then bind (py_input (U ''Use GUI for password input? (y/N): '')) (\<lambda>line2.
                        let gui_choice = lower (strip line2);
                            use_gui = (gui_choice \<in> set [U ''y'', U ''yes''])
                        in interactive_mode KP use_gui)
                 else py_print (U ''Run with --help for full usage information.''))
                (sys_exit 0)))
        else if length argv = 2 \<and> argv ! 1 = U ''--compare''
        then seq (gui_comparison_demo KP) (sys_exit 0)
        else main KP parse_args argv))"


definition is_collaborator :: "event \<Rightarrow> bool" where
  "is_collaborator ev =
     (case ev of Stdout t \<Rightarrow> False | Prompt t \<Rightarrow> False | Sleep n \<Rightarrow> False | _ \<Rightarrow> True)"

section \<open>demo_minimalistic.py\<close>

definition db_file :: ustr where
  "db_file = U ''C:'' @ [92] @ U ''Passwords.kdbx''"

definition demo_minimalistic :: "keepass \<Rightarrow> unit prog" where
  "demo_minimalistic KP =
     seq (try_except
            (with_session KP db_file False (\<lambda>kp1.
               bind (kp_get_entry_count kp1) (\<lambda>n. py_print (U ''Antal poster: '' @ str_int n))))
            (\<lambda>e. if is_Exception e
                  then py_print (U ''Error when accessing database file with context manager'' @
                                 [10] @ str_exn e)
                  else raise e))
         (try_except
            (bind (open_session KP db_file False) (\<lambda>kp2.
               bind (kp_get_entry_count kp2) (\<lambda>n. py_print (U ''Antal poster: '' @ str_int n))))
            (\<lambda>e. if is_Exception e
                  then py_print (U ''Error when accessing database file directly:'' @
                                 [10] @ str_exn e)
                  else raise e))"


section \<open>Sample inputs\<close>

text \<open>
  A database with one entry, \<open>Site\<close>, of user \<open>alice\<close> with password \<open>p4ss\<close>; it opens
  with console input and fails to open with graphical input.
\<close>

definition sample_entry :: entry where
  "sample_entry =
     \<lparr>title = Some (U ''Site''), username = Some (U ''alice''), password = Some (U ''p4ss''),
      url = None, notes_attr = Some [], autotype_sequence = None, uuid = 7\<rparr>"

definition sample_session :: session where
  "sample_session =
     \<lparr>get_entry_count = Inr 3,
      get_credentials = (\<lambda>t. if t = U ''Site'' then Inr sample_entry
                             else Inl (ValueError (U ''no such entry''))),
      search_entries = (\<lambda>t n. Inr (take n [sample_entry, sample_entry])),
      use_KeePass_sequence = (\<lambda>t. Inr ()),
      entry_exists = (\<lambda>t. Inr 1)\<rparr>"

definition sample_keepass :: keepass where
  "sample_keepass n path with_gui =
     (if with_gui then Inl (OtherException (U ''no display'')) else Inr sample_session)"

text \<open>The arguments of \<open>--db X --entry Site --get-credentials\<close>.\<close>

definition sample_args :: args where
  "sample_args =
     \<lparr>arg_db = Some (U ''X''), arg_gui = False, arg_entry = Some (U ''Site''), arg_search = None,
      arg_get_credentials = True, arg_get_full_entry = False, arg_autotype = False,
      arg_interactive = False, arg_verbose = False\<rparr>"


section \<open>The action count\<close>

lemmas prog_defs = ret_def raise_def bind_def seq_def try_except_def emit_def py_print_def
  py_print_end_def sys_exit_def call_def open_session_def with_session_def

definition no_attribute :: "string \<Rightarrow> exn" where
  "no_attribute name =
     AttributeError (q (U ''Namespace'') @ U '' object has no attribute '' @ q (U name))"

lemma getattr_defined:
  "getattr a ''get_credentials'' = ret (Flag (arg_get_credentials a))"
  "getattr a ''get_full_entry'' = ret (Flag (arg_get_full_entry a))"
  "getattr a ''autotype'' = ret (Flag (arg_autotype a))"
  by (simp_all add: getattr_def namespace_def)

lemma getattr_list_entries: "getattr a ''list_entries'' = raise (no_attribute ''list_entries'')"
  by (simp add: getattr_def namespace_def no_attribute_def)

lemma action_count_raises: "action_count a s = ([], Inl (no_attribute ''list_entries''), s)"
  by (simp add: action_count_def getattr_defined getattr_list_entries bind_def ret_def raise_def)

text \<open>
  Claim C1. Without \<open>--interactive\<close> and with \<open>--db\<close> given, the namespace of the parsed
  arguments has no attribute \<open>list_entries\<close>, so computing the action count raises
  \<open>AttributeError\<close>; \<open>main\<close> ends with that exception having written nothing and called
  nothing: neither the tests on the count nor any handler is reached.
\<close>

theorem list_entries_aborts_count:
  assumes "\<not> arg_interactive a" and "truthy (arg_db a)"
  shows "map_of (namespace a) ''list_entries'' = None
       \<and> action_count a s = ([], Inl (no_attribute ''list_entries''), s)
       \<and> main_body KP a s = ([], Inl (no_attribute ''list_entries''), s)"
proof -
  have "map_of (namespace a) ''list_entries'' = None"
    by (simp add: namespace_def)
  moreover have "main_body KP a s = ([], Inl (no_attribute ''list_entries''), s)"
    using assms
    by (simp add: main_body_def setup_logging_def seq_def bind_def ret_def Let_def
        action_count_raises)
  ultimately show ?thesis
    by (simp add: action_count_raises)
qed

theorem list_entries_aborts_count_witness:
  "main_body sample_keepass sample_args \<lparr>stdin = [], opens = 0\<rparr> =
     ([], Inl (no_attribute ''list_entries''), \<lparr>stdin = [], opens = 0\<rparr>)"
  using list_entries_aborts_count [where a = sample_args and KP = sample_keepass
      and s = "\<lparr>stdin = [], opens = 0\<rparr>"]
  by (simp add: sample_args_def truthy_def U_def)

section \<open>Usage errors\<close>






section \<open>Comparing the input methods\<close>

definition log_type_error :: exn where
  "log_type_error =
     TypeError (U ''log() missing 1 required positional argument: '' @ q (U ''msg''))"

lemma comparison_pass_console_ok:
  assumes "KP (opens s) db_path g = Inr kp" and "get_entry_count kp = Inr n"
  shows "comparison_pass KP db_path g s =
           ([OpenOk (opens s) db_path g, Call (opens s) GetEntryCount,
             Stdout (U ''   '' @ sym_check @ U '' Successfully opened database with > '' @
                     str_int n @ U '' < entries'' @ [10]),
             Released (opens s)],
            Inl log_type_error, s\<lparr>opens := Suc (opens s)\<rparr>)"
  using assms
  by (simp add: comparison_pass_def kp_get_entry_count_def logging_log_def log_type_error_def
      prog_defs Let_def)

text \<open>
  Claim C3 says that after a console pass whose open and entry count succeed, the
  database is opened a second time with graphical input and both counts are reported.
  The code does otherwise: the call \<open>logging.log(text)\<close> that follows the first report
  raises \<open>TypeError\<close> inside the first \<open>try\<close>, whose handler reports a console failure and
  returns. This is the whole run: the session of the console pass is released, a console
  failure is printed after the success, and no second open is attempted.
\<close>

theorem console_success_never_reaches_gui:
  assumes "stdin s = Line line # rest" and "strip line \<noteq> []"
    and "KP (opens s) (strip line) False = Inr kp" and "get_entry_count kp = Inr n"
  shows "gui_comparison_demo KP s =
           ([Stdout ([10] @ sym_arrows @ U '' GUI vs Console Input Comparison Demo'' @ [10]),
             Stdout (replicate 50 61 @ [10]),
             Prompt (U ''Enter path to KeePass database file for comparison: ''),
             Stdout ([10] @ sym_one @ U ''  Testing with CONSOLE input:'' @ [10]),
             Stdout (U ''   You'' @ [39] @ U ''ll be prompted for password in the terminal'' @ [10]),
             OpenOk (opens s) (strip line) False,
             Call (opens s) GetEntryCount,
             Stdout (U ''   '' @ sym_check @ U '' Successfully opened database with > '' @
                     str_int n @ U '' < entries'' @ [10]),
             Released (opens s),
             Stdout (U ''   '' @ sym_cross @ U '' Console input failed: '' @
                     str_exn log_type_error @ [10])],
            Inr (), s\<lparr>stdin := rest, opens := Suc (opens s)\<rparr>)"
proof -
  let ?s1 = "s\<lparr>stdin := rest\<rparr>"
  have inp: "py_input (U ''Enter path to KeePass database file for comparison: '') s =
      ([Prompt (U ''Enter path to KeePass database file for comparison: '')], Inr line, ?s1)"
    using assms(1) by (simp add: py_input_def)
  have pass: "comparison_pass KP (strip line) False ?s1 =
           ([OpenOk (opens s) (strip line) False, Call (opens s) GetEntryCount,
             Stdout (U ''   '' @ sym_check @ U '' Successfully opened database with > '' @
                     str_int n @ U '' < entries'' @ [10]),
             Released (opens s)],
            Inl log_type_error, ?s1\<lparr>opens := Suc (opens s)\<rparr>)"
    using comparison_pass_console_ok [of KP ?s1 "strip line" False kp n] assms(3,4) by simp
  show ?thesis
    using assms(2) inp pass
    by (simp add: gui_comparison_demo_def prog_defs Let_def log_type_error_def)
qed


theorem console_success_never_reaches_gui_witness:
  "filter is_collaborator
     (fst (gui_comparison_demo sample_keepass \<lparr>stdin = [Line (U ''X'')], opens = 0\<rparr>)) =
     [OpenOk 0 (U ''X'') False, Call 0 GetEntryCount, Released 0]"
  using console_success_never_reaches_gui [where s = "\<lparr>stdin = [Line (U ''X'')], opens = 0\<rparr>"
      and line = "U ''X''" and rest = "[]" and KP = sample_keepass and kp = sample_session
      and n = 3]
  by (simp add: sample_keepass_def sample_session_def strip_def isspace_def U_def
      is_collaborator_def)




text \<open>A database that does not open: the key typed at the console is wrong.\<close>

definition locked_keepass :: keepass where
  "locked_keepass n path with_gui = Inl (OtherException (U ''wrong key''))"



section \<open>Interactive mode and its database\<close>

lemma interactive_db_path_nonempty: "interactive_db_path \<noteq> []"
  by (simp add: interactive_db_path_def U_def)

lemma comparison_pass_opens_first:
  "\<exists>evs e s'. comparison_pass KP p g s =
     ((case KP (opens s) p g of
         Inl e \<Rightarrow> OpenFail (opens s) p g
       | Inr kp \<Rightarrow> OpenOk (opens s) p g) # evs, Inl e, s')"
proof (cases "KP (opens s) p g")
  case (Inl e)
  then show ?thesis
    by (simp add: comparison_pass_def prog_defs Let_def)
next
  case (Inr kp)
  then show ?thesis
    by (cases "get_entry_count kp")
      (simp_all add: comparison_pass_def kp_get_entry_count_def logging_log_def prog_defs
        Let_def)
qed

text \<open>The comparison demo begins by asking for a path.\<close>

lemma gui_comparison_demo_asks:
  "take 3 (fst (gui_comparison_demo KP s)) =
     [Stdout ([10] @ sym_arrows @ U '' GUI vs Console Input Comparison Demo'' @ [10]),
      Stdout (replicate 50 61 @ [10]),
      Prompt (U ''Enter path to KeePass database file for comparison: '')]"
proof (cases "stdin s")
  case Nil
  then show ?thesis
    by (simp add: gui_comparison_demo_def py_input_def prog_defs)
next
  case (Cons item rest)
  show ?thesis
  proof (cases item)
    case CtrlC
    then show ?thesis
      using Cons by (simp add: gui_comparison_demo_def py_input_def prog_defs)
  next
    case (Line line)
    let ?s1 = "s\<lparr>stdin := rest\<rparr>"
    obtain evs e s' where cp: "comparison_pass KP (strip line) False ?s1 = (evs, Inl e, s')"
      using comparison_pass_opens_first [of KP "strip line" False ?s1] by auto
    show ?thesis
    proof (cases "strip line = []")
      case True
      then show ?thesis
        using Cons Line
        by (simp add: gui_comparison_demo_def py_input_def prog_defs Let_def)
    next
      case False
      then show ?thesis
        using Cons Line cp
        by (cases "is_Exception e")
          (simp_all add: gui_comparison_demo_def py_input_def prog_defs Let_def)
    qed
  qed
qed

text \<open>With a path typed, it goes on to open that path with console input.\<close>

lemma gui_comparison_demo_opens:
  assumes "stdin s = Line line # rest" and "strip line \<noteq> []"
  shows "take 6 (fst (gui_comparison_demo KP s)) =
     [Stdout ([10] @ sym_arrows @ U '' GUI vs Console Input Comparison Demo'' @ [10]),
      Stdout (replicate 50 61 @ [10]),
      Prompt (U ''Enter path to KeePass database file for comparison: ''),
      Stdout ([10] @ sym_one @ U ''  Testing with CONSOLE input:'' @ [10]),
      Stdout (U ''   You'' @ [39] @ U ''ll be prompted for password in the terminal'' @ [10]),
      (case KP (opens s) (strip line) False of
         Inl e \<Rightarrow> OpenFail (opens s) (strip line) False
       | Inr kp \<Rightarrow> OpenOk (opens s) (strip line) False)]"
proof -
  let ?s1 = "s\<lparr>stdin := rest\<rparr>"
  have "\<exists>evs e s'. comparison_pass KP (strip line) False ?s1 =
      ((case KP (opens s) (strip line) False of
          Inl e \<Rightarrow> OpenFail (opens s) (strip line) False
        | Inr kp \<Rightarrow> OpenOk (opens s) (strip line) False) # evs, Inl e, s')"
    using comparison_pass_opens_first [of KP "strip line" False ?s1]
    by (simp cong: sum.case_cong)
  then obtain evs e s' where cp: "comparison_pass KP (strip line) False ?s1 =
      ((case KP (opens s) (strip line) False of
          Inl e \<Rightarrow> OpenFail (opens s) (strip line) False
        | Inr kp \<Rightarrow> OpenOk (opens s) (strip line) False) # evs, Inl e, s')"
    by blast
  show ?thesis
    using assms cp
    by (cases "is_Exception e")
      (simp_all add: gui_comparison_demo_def py_input_def prog_defs Let_def)
qed

text \<open>Menu choice 5 runs the comparison demo.\<close>

lemma menu_pass_choice_5:
  assumes "stdin s = Line l # rest" and "strip l = U ''5''"
  shows "fst (menu_pass KP h s) =
           menu_lines @ [Prompt ([10] @ U ''Enter your choice (1-6): '')] @
           fst (gui_comparison_demo KP (s\<lparr>stdin := rest\<rparr>))"
proof -
  obtain evs r s' where g: "gui_comparison_demo KP (s\<lparr>stdin := rest\<rparr>) = (evs, r, s')"
    by (cases "gui_comparison_demo KP (s\<lparr>stdin := rest\<rparr>)") auto
  show ?thesis
    using assms g
    by (cases r) (simp_all add: menu_pass_def py_input_def prog_defs Let_def menu_lines_def U_def)
qed

text \<open>
  Claim C4, as amended. Interactive mode prints its banner and then opens the database
  of the interactive loop on the path written into the source,
  \<open>~\Losenordslista_SD_Personlig.kdbx\<close>, before it reads any input: nothing is asked
  before that open, and its path does not depend on the input. Entered through \<open>main\<close>
  with \<open>--interactive\<close> it is run with the \<open>--gui\<close> flag alone, so the value of \<open>--db\<close>
  changes nothing. A database path is asked for all the same: menu choice 5 runs the
  comparison demo, which begins with the prompt for a path and, when one is typed, goes
  on to open that path with console input.
\<close>

theorem interactive_mode_fixed_path:
  "take 2 (fst (interactive_mode KP g s)) =
     [Stdout ([10] @ U ''=== KeePass Interactive Mode (using '' @ input_method g @
              U '' input) ==='' @ [10]),
      (case KP (opens s) interactive_db_path g of
         Inl e \<Rightarrow> OpenFail (opens s) interactive_db_path g
       | Inr kp \<Rightarrow> OpenOk (opens s) interactive_db_path g)]
   \<and> interactive_db_path = [126, 92] @ U ''Losenordslista_SD_Personlig.kdbx''
   \<and> (arg_interactive a \<longrightarrow>
        main_body KP a s = interactive_mode KP (arg_gui a) s
        \<and> main_body KP (a\<lparr>arg_db := d\<rparr>) s = main_body KP a s)
   \<and> (stdin s2 = Line l # rest \<and> strip l = U ''5'' \<longrightarrow>
        fst (menu_pass KP h s2) =
          menu_lines @ [Prompt ([10] @ U ''Enter your choice (1-6): '')] @
          fst (gui_comparison_demo KP (s2\<lparr>stdin := rest\<rparr>)))
   \<and> take 3 (fst (gui_comparison_demo KP s3)) =
        [Stdout ([10] @ sym_arrows @ U '' GUI vs Console Input Comparison Demo'' @ [10]),
         Stdout (replicate 50 61 @ [10]),
         Prompt (U ''Enter path to KeePass database file for comparison: '')]
   \<and> (stdin s3 = Line line # rest3 \<and> strip line \<noteq> [] \<longrightarrow>
        take 6 (fst (gui_comparison_demo KP s3)) ! 5 =
          (case KP (opens s3) (strip line) False of
             Inl e \<Rightarrow> OpenFail (opens s3) (strip line) False
           | Inr kp \<Rightarrow> OpenOk (opens s3) (strip line) False))"
proof -
  have open_first: "take 2 (fst (interactive_mode KP g s)) =
     [Stdout ([10] @ U ''=== KeePass Interactive Mode (using '' @ input_method g @
              U '' input) ==='' @ [10]),
      (case KP (opens s) interactive_db_path g of
         Inl e \<Rightarrow> OpenFail (opens s) interactive_db_path g
       | Inr kp \<Rightarrow> OpenOk (opens s) interactive_db_path g)]"
  proof (cases "KP (opens s) interactive_db_path g")
    case (Inl e)
    then show ?thesis
      using interactive_db_path_nonempty
      by (cases "is_Exception e")
        (simp_all add: interactive_mode_def prog_defs Let_def)
  next
    case (Inr kp)
    obtain evs r s' where ml: "menu_loop KP (kp, opens s) (s\<lparr>opens := Suc (opens s)\<rparr>) = (evs, r, s')"
      by (cases "menu_loop KP (kp, opens s) (s\<lparr>opens := Suc (opens s)\<rparr>)") auto
    show ?thesis
    proof (cases r)
      case (Inl e)
      then show ?thesis
        using Inr ml interactive_db_path_nonempty
        by (cases "is_Exception e") (simp_all add: interactive_mode_def prog_defs Let_def)
    next
      case (Inr u)
      then show ?thesis
        using \<open>KP (opens s) interactive_db_path g = Inr kp\<close> ml interactive_db_path_nonempty
        by (simp add: interactive_mode_def prog_defs Let_def)
    qed
  qed
  have path: "interactive_db_path = [126, 92] @ U ''Losenordslista_SD_Personlig.kdbx''"
    by (simp add: interactive_db_path_def U_def)
  have mb: "arg_interactive a \<longrightarrow>
        main_body KP a s = interactive_mode KP (arg_gui a) s
        \<and> main_body KP (a\<lparr>arg_db := d\<rparr>) s = main_body KP a s"
    by (cases "interactive_mode KP (arg_gui a) s")
       (auto simp add: main_body_def setup_logging_def seq_def bind_def ret_def split: sum.splits)
  have five: "stdin s2 = Line l # rest \<and> strip l = U ''5'' \<longrightarrow>
        fst (menu_pass KP h s2) =
          menu_lines @ [Prompt ([10] @ U ''Enter your choice (1-6): '')] @
          fst (gui_comparison_demo KP (s2\<lparr>stdin := rest\<rparr>))"
    using menu_pass_choice_5 [of s2 l rest KP h] by blast
  have opens: "stdin s3 = Line line # rest3 \<and> strip line \<noteq> [] \<longrightarrow>
        take 6 (fst (gui_comparison_demo KP s3)) ! 5 =
          (case KP (opens s3) (strip line) False of
             Inl e \<Rightarrow> OpenFail (opens s3) (strip line) False
           | Inr kp \<Rightarrow> OpenOk (opens s3) (strip line) False)"
    using gui_comparison_demo_opens [of s3 line rest3 KP] by simp
  show ?thesis
    using open_first path mb five gui_comparison_demo_asks [of KP s3] opens by blast
qed

theorem interactive_mode_fixed_path_witness:
  "take 2 (fst (main_body sample_keepass
                  (sample_args\<lparr>arg_interactive := True, arg_db := Some (U ''other.kdbx'')\<rparr>)
                  \<lparr>stdin = [Line (U ''6'')], opens = 0\<rparr>)) =
     [Stdout ([10] @ U ''=== KeePass Interactive Mode (using console input) ==='' @ [10]),
      OpenOk 0 ([126, 92] @ U ''Losenordslista_SD_Personlig.kdbx'') False]
   \<and> take 12 (fst (menu_pass sample_keepass (sample_session, 0)
                      \<lparr>stdin = [Line (U ''5''), Line (U ''X'')], opens = 1\<rparr>)) =
     menu_lines @
     [Prompt ([10] @ U ''Enter your choice (1-6): ''),
      Stdout ([10] @ sym_arrows @ U '' GUI vs Console Input Comparison Demo'' @ [10]),
      Stdout (replicate 50 61 @ [10]),
      Prompt (U ''Enter path to KeePass database file for comparison: '')]
   \<and> take 6 (fst (gui_comparison_demo sample_keepass
                     \<lparr>stdin = [Line (U ''X'')], opens = 1\<rparr>)) ! 5 =
     OpenOk 1 (U ''X'') False"
  using interactive_mode_fixed_path [where KP = sample_keepass and g = False
      and s = "\<lparr>stdin = [Line (U ''6'')], opens = 0\<rparr>"
      and a = "sample_args\<lparr>arg_interactive := True\<rparr>" and d = "Some (U ''other.kdbx'')"
      and ?s2.0 = "\<lparr>stdin = [Line (U ''5''), Line (U ''X'')], opens = 1\<rparr>"
      and l = "U ''5''" and rest = "[Line (U ''X'')]" and h = "(sample_session, 0)"
      and ?s3.0 = "\<lparr>stdin = [Line (U ''X'')], opens = 1\<rparr>"
      and line = "U ''X''" and ?rest3.0 = "[]"]
  by (simp add: sample_args_def sample_keepass_def input_method_def menu_lines_def
      strip_def isspace_def U_def)

text \<open>
  Claim C4 as the spec states it fails: in interactive mode, with \<open>5\<close>, \<open>X\<close> and \<open>6\<close>
  typed, the user is asked for the path of a database and the database \<open>X\<close> is opened,
  beside the one of the interactive loop.
\<close>

theorem interactive_choice_5_asks_path:
  "interactive_mode sample_keepass False
     \<lparr>stdin = [Line (U ''5''), Line (U ''X''), Line (U ''6'')], opens = 0\<rparr> =
     ([Stdout ([10] @ U ''=== KeePass Interactive Mode (using console input) ==='' @ [10]),
       OpenOk 0 interactive_db_path False]
      @ menu_lines
      @ [Prompt ([10] @ U ''Enter your choice (1-6): ''),
         Stdout ([10] @ sym_arrows @ U '' GUI vs Console Input Comparison Demo'' @ [10]),
         Stdout (replicate 50 61 @ [10]),
         Prompt (U ''Enter path to KeePass database file for comparison: ''),
         Stdout ([10] @ sym_one @ U ''  Testing with CONSOLE input:'' @ [10]),
         Stdout (U ''   You'' @ [39] @ U ''ll be prompted for password in the terminal'' @ [10]),
         OpenOk 1 (U ''X'') False,
         Call 1 GetEntryCount,
         Stdout (U ''   '' @ sym_check @ U '' Successfully opened database with > 3 < entries'' @ [10]),
         Released 1,
         Stdout (U ''   '' @ sym_cross @ U '' Console input failed: log() missing 1 required positional argument: '' @ q (U ''msg'') @ [10])]
      @ menu_lines
      @ [Prompt ([10] @ U ''Enter your choice (1-6): ''),
         Stdout (U ''Exiting interactive mode...'' @ [10]),
         Released 0],
      Inr (), \<lparr>stdin = [], opens = 2\<rparr>)"
  by (simp add: interactive_mode_def menu_loop.simps menu_pass_def gui_comparison_demo_def
      comparison_pass_def kp_get_entry_count_def logging_log_def py_input_def prog_defs
      Let_def menu_lines_def sample_keepass_def sample_session_def interactive_db_path_def
      input_method_def strip_def isspace_def str_int_def str_nat.simps q_def U_def)

section \<open>Masked passwords and truncated notes\<close>




text \<open>The same database with notes of 150 characters on its entry.\<close>

definition long_notes_keepass :: keepass where
  "long_notes_keepass n path with_gui =
     Inr (sample_session\<lparr>get_credentials :=
            (\<lambda>t. Inr (sample_entry\<lparr>notes_attr := Some (replicate 150 120)\<rparr>))\<rparr>)"

text \<open>The run of menu choice 3 (lines 117 to 129) once the choice is read.\<close>

lemma menu_full_entry_run:
  assumes "stdin s2 = Line l # rest" and "strip l \<noteq> []"
    and "get_credentials (fst h) (strip l) = Inr en2"
  shows "menu_full_entry h s2 =
           ([Prompt (U ''Enter entry title: ''),
             Call (snd h) (GetEntry (strip l)),
             Stdout ([10] @ U ''Entry Details:'' @ [10]),
             Stdout (U ''Title: '' @ fmt (title en2) @ [10]),
             Stdout (U ''Username: '' @ fmt (username en2) @ [10]),
             Stdout (U ''Password: '' @ masked (password en2) @ [10]),
             Stdout (U ''URL: '' @ or_else (url en2) (U ''N/A'') @ [10]),
             Stdout (U ''Notes: '' @ or_else (notes_attr en2) (U ''N/A'') @ [10]),
             Stdout (U ''Autotype Sequence: '' @
                     or_else (autotype_sequence en2) (U ''N/A'') @ [10])],
            Inr (), s2\<lparr>stdin := rest\<rparr>)"
  using assms
  by (simp add: menu_full_entry_def kp_get_entry_def py_input_def prog_defs Let_def)

text \<open>
  Claim C9, as amended. The single-shot handler \<open>get_full_entry_demo\<close>, when its open and
  its lookup succeed, prints the notes line among the details. Notes longer than 100
  characters are printed as their first 100 characters followed by three dots; notes of
  1 to 100 characters are printed unchanged; empty or absent notes are printed as \<open>N/A\<close>.
  The get-full-entry action of the interactive menu (choice 3) never truncates: it
  prints notes that are not empty in full, whatever their length, and \<open>N/A\<close> for empty
  or absent notes.
\<close>

theorem get_full_entry_notes:
  "(KP (opens s) db_path g = Inr kp \<and> get_credentials kp t = Inr en \<longrightarrow>
      get_full_entry_demo KP db_path t g s =
           ([Stdout (U ''Getting full entry details for: '' @ q t @ U '' (using '' @
                     input_method g @ U '' input)'' @ [10]),
             OpenOk (opens s) db_path g,
             Call (opens s) (GetEntry t),
             Stdout ([10] @ sym_clipboard @ U '' Entry Details:'' @ [10]),
             Stdout (U ''   Title: '' @ fmt (title en) @ [10]),
             Stdout (U ''   Username: '' @ or_else (username en) (U ''N/A'') @ [10]),
             Stdout (U ''   Password: '' @ masked (password en) @ [10]),
             Stdout (U ''   URL: '' @ or_else (url en) (U ''N/A'') @ [10]),
             Stdout (U ''   Notes: '' @ notes_text (notes_attr en) @ [10]),
             Stdout (U ''   Has Autotype: '' @
                     (if truthy (autotype_sequence en) then U ''Yes'' else U ''No'') @ [10])]
            @ (if truthy (autotype_sequence en)
               then [Stdout (U ''   Autotype Sequence: '' @ fmt (autotype_sequence en) @ [10])]
               else [])
            @ [Released (opens s)],
            Inr (), s\<lparr>opens := Suc (opens s)\<rparr>))
   \<and> (\<forall>n. notes_attr en = Some n \<and> length n > 100 \<longrightarrow>
         notes_text (notes_attr en) = take 100 n @ U ''...'')
   \<and> (\<forall>n. notes_attr en = Some n \<and> n \<noteq> [] \<and> length n \<le> 100 \<longrightarrow>
         notes_text (notes_attr en) = n)
   \<and> (notes_attr en = None \<or> notes_attr en = Some [] \<longrightarrow>
         notes_text (notes_attr en) = U ''N/A'')
   \<and> (stdin s2 = Line l # rest \<and> strip l \<noteq> [] \<and>
        get_credentials (fst h) (strip l) = Inr en2 \<longrightarrow>
        menu_full_entry h s2 =
           ([Prompt (U ''Enter entry title: ''),
             Call (snd h) (GetEntry (strip l)),
             Stdout ([10] @ U ''Entry Details:'' @ [10]),
             Stdout (U ''Title: '' @ fmt (title en2) @ [10]),
             Stdout (U ''Username: '' @ fmt (username en2) @ [10]),
             Stdout (U ''Password: '' @ masked (password en2) @ [10]),
             Stdout (U ''URL: '' @ or_else (url en2) (U ''N/A'') @ [10]),
             Stdout (U ''Notes: '' @ or_else (notes_attr en2) (U ''N/A'') @ [10]),
             Stdout (U ''Autotype Sequence: '' @
                     or_else (autotype_sequence en2) (U ''N/A'') @ [10])],
            Inr (), s2\<lparr>stdin := rest\<rparr>))
   \<and> (\<forall>n. notes_attr en2 = Some n \<and> n \<noteq> [] \<longrightarrow> or_else (notes_attr en2) (U ''N/A'') = n)
   \<and> (notes_attr en2 = None \<or> notes_attr en2 = Some [] \<longrightarrow>
         or_else (notes_attr en2) (U ''N/A'') = U ''N/A'')"
proof -
  have run: "KP (opens s) db_path g = Inr kp \<and> get_credentials kp t = Inr en \<longrightarrow>
      get_full_entry_demo KP db_path t g s =
           ([Stdout (U ''Getting full entry details for: '' @ q t @ U '' (using '' @
                     input_method g @ U '' input)'' @ [10]),
             OpenOk (opens s) db_path g,
             Call (opens s) (GetEntry t),
             Stdout ([10] @ sym_clipboard @ U '' Entry Details:'' @ [10]),
             Stdout (U ''   Title: '' @ fmt (title en) @ [10]),
             Stdout (U ''   Username: '' @ or_else (username en) (U ''N/A'') @ [10]),
             Stdout (U ''   Password: '' @ masked (password en) @ [10]),
             Stdout (U ''   URL: '' @ or_else (url en) (U ''N/A'') @ [10]),
             Stdout (U ''   Notes: '' @ notes_text (notes_attr en) @ [10]),
             Stdout (U ''   Has Autotype: '' @
                     (if truthy (autotype_sequence en) then U ''Yes'' else U ''No'') @ [10])]
            @ (if truthy (autotype_sequence en)
               then [Stdout (U ''   Autotype Sequence: '' @ fmt (autotype_sequence en) @ [10])]
               else [])
            @ [Released (opens s)],
            Inr (), s\<lparr>opens := Suc (opens s)\<rparr>)"
    by (simp add: get_full_entry_demo_def kp_get_entry_def prog_defs Let_def)
  have long: "\<forall>n. notes_attr en = Some n \<and> length n > 100 \<longrightarrow>
             notes_text (notes_attr en) = take 100 n @ U ''...''"
    by (auto simp: notes_text_def)
  have short: "\<forall>n. notes_attr en = Some n \<and> n \<noteq> [] \<and> length n \<le> 100 \<longrightarrow>
             notes_text (notes_attr en) = n"
    by (auto simp: notes_text_def)
  have na: "notes_attr en = None \<or> notes_attr en = Some [] \<longrightarrow>
             notes_text (notes_attr en) = U ''N/A''"
    by (auto simp: notes_text_def)
  have menu: "stdin s2 = Line l # rest \<and> strip l \<noteq> [] \<and>
        get_credentials (fst h) (strip l) = Inr en2 \<longrightarrow>
        menu_full_entry h s2 =
           ([Prompt (U ''Enter entry title: ''),
             Call (snd h) (GetEntry (strip l)),
             Stdout ([10] @ U ''Entry Details:'' @ [10]),
             Stdout (U ''Title: '' @ fmt (title en2) @ [10]),
             Stdout (U ''Username: '' @ fmt (username en2) @ [10]),
             Stdout (U ''Password: '' @ masked (password en2) @ [10]),
             Stdout (U ''URL: '' @ or_else (url en2) (U ''N/A'') @ [10]),
             Stdout (U ''Notes: '' @ or_else (notes_attr en2) (U ''N/A'') @ [10]),
             Stdout (U ''Autotype Sequence: '' @
                     or_else (autotype_sequence en2) (U ''N/A'') @ [10])],
            Inr (), s2\<lparr>stdin := rest\<rparr>)"
    using menu_full_entry_run [of s2 l rest h en2] by blast
  have full: "\<forall>n. notes_attr en2 = Some n \<and> n \<noteq> [] \<longrightarrow>
      or_else (notes_attr en2) (U ''N/A'') = n"
    by (auto simp: or_else_def)
  have mna: "notes_attr en2 = None \<or> notes_attr en2 = Some [] \<longrightarrow>
         or_else (notes_attr en2) (U ''N/A'') = U ''N/A''"
    by (auto simp: or_else_def)
  show ?thesis
    using run long short na menu full mna by blast
qed

theorem get_full_entry_notes_witness:
  "fst (get_full_entry_demo long_notes_keepass (U ''X'') (U ''Site'') False
          \<lparr>stdin = [], opens = 0\<rparr>) ! 8 =
     Stdout (U ''   Notes: '' @ replicate 100 120 @ U ''...'' @ [10])
   \<and> fst (menu_full_entry
            (sample_session\<lparr>get_credentials :=
               (\<lambda>t. Inr (sample_entry\<lparr>notes_attr := Some (replicate 150 120)\<rparr>))\<rparr>, 0)
            \<lparr>stdin = [Line (U ''Site'')], opens = 1\<rparr>) ! 7 =
     Stdout (U ''Notes: '' @ replicate 150 120 @ [10])"
  using get_full_entry_notes [where KP = long_notes_keepass and db_path = "U ''X''"
      and t = "U ''Site''" and g = False and s = "\<lparr>stdin = [], opens = 0\<rparr>"
      and kp = "sample_session\<lparr>get_credentials :=
            (\<lambda>t. Inr (sample_entry\<lparr>notes_attr := Some (replicate 150 120)\<rparr>))\<rparr>"
      and en = "sample_entry\<lparr>notes_attr := Some (replicate 150 120)\<rparr>"
      and ?s2.0 = "\<lparr>stdin = [Line (U ''Site'')], opens = 1\<rparr>" and l = "U ''Site''"
      and rest = "[]"
      and h = "(sample_session\<lparr>get_credentials :=
            (\<lambda>t. Inr (sample_entry\<lparr>notes_attr := Some (replicate 150 120)\<rparr>))\<rparr>, 0)"
      and ?en2.0 = "sample_entry\<lparr>notes_attr := Some (replicate 150 120)\<rparr>"]
  by (simp add: long_notes_keepass_def sample_entry_def strip_def isspace_def U_def)

text \<open>
  Claim C9 as the spec states it fails for notes of length 0: they are at most 100
  characters long and are printed as \<open>N/A\<close>, not unchanged.
\<close>

theorem empty_notes_print_na:
  "notes_attr sample_entry = Some [] \<and> length ([] :: ustr) \<le> 100
   \<and> get_full_entry_demo sample_keepass (U ''X'') (U ''Site'') False \<lparr>stdin = [], opens = 0\<rparr> =
       ([Stdout (U ''Getting full entry details for: '' @ q (U ''Site'') @
                 U '' (using console input)'' @ [10]),
         OpenOk 0 (U ''X'') False,
         Call 0 (GetEntry (U ''Site'')),
         Stdout ([10] @ sym_clipboard @ U '' Entry Details:'' @ [10]),
         Stdout (U ''   Title: Site'' @ [10]),
         Stdout (U ''   Username: alice'' @ [10]),
         Stdout (U ''   Password: ****'' @ [10]),
         Stdout (U ''   URL: N/A'' @ [10]),
         Stdout (U ''   Notes: N/A'' @ [10]),
         Stdout (U ''   Has Autotype: No'' @ [10]),
         Released 0],
        Inr (), \<lparr>stdin = [], opens = 1\<rparr>)"
  by (simp add: get_full_entry_demo_def kp_get_entry_def prog_defs Let_def sample_keepass_def
      sample_session_def sample_entry_def masked_def fmt_def or_else_def notes_text_def
      truthy_def input_method_def U_def)


section \<open>Search results without duplicates\<close>

text \<open>The dictionary of the comprehension, built from a dictionary \<open>d\<close>.\<close>

definition build :: "(nat \<times> entry) list \<Rightarrow> entry list \<Rightarrow> (nat \<times> entry) list" where
  "build d entries = foldl (\<lambda>d en. dict_set d (uuid en) en) d entries"

lemma build_simps:
  "build d [] = d"
  "build d (en # ens) = build (dict_set d (uuid en) en) ens"
  by (simp_all add: build_def)

lemma unique_entries_build: "unique_entries entries = map snd (build [] entries)"
  by (simp add: unique_entries_def build_def)


















text \<open>What the loop of lines 326 to 332 prints for the entry numbered \<open>i\<close>.\<close>

definition entry_lines :: "nat \<Rightarrow> entry \<Rightarrow> event list" where
  "entry_lines i en =
     [Stdout (str_nat i @ U ''. '' @ sym_memo @ U '' '' @ fmt (title en) @ [10])]
     @ (if truthy (username en)
        then [Stdout (U ''   '' @ sym_bust @ U '' Username: '' @ fmt (username en) @ [10])]
        else [])
     @ (if truthy (url en)
        then [Stdout (U ''   '' @ sym_globe @ U '' URL: '' @ fmt (url en) @ [10])]
        else [])
     @ [Stdout [10]]"

fun listing :: "nat \<Rightarrow> entry list \<Rightarrow> event list" where
  "listing i [] = []"
| "listing i (en # ens) = entry_lines i en @ listing (Suc i) ens"

lemma print_entries_listing: "print_entries i ens s = (listing i ens, Inr (), s)"
  by (induction ens arbitrary: i) (simp_all add: prog_defs entry_lines_def)







section \<open>Passwords and the output\<close>

text \<open>
  A database that differs only in its passwords: every password \<open>p\<close> an entry carries is
  replaced by \<open>f p\<close>.
\<close>

definition redact_entry :: "(ustr \<Rightarrow> ustr) \<Rightarrow> entry \<Rightarrow> entry" where
  "redact_entry f en = en\<lparr>password := map_option f (password en)\<rparr>"

definition redact_session :: "(ustr \<Rightarrow> ustr) \<Rightarrow> session \<Rightarrow> session" where
  "redact_session f kp =
     kp\<lparr>get_credentials := (\<lambda>t. map_sum id (redact_entry f) (get_credentials kp t)),
        search_entries := (\<lambda>t n. map_sum id (map (redact_entry f)) (search_entries kp t n))\<rparr>"

definition redact :: "(ustr \<Rightarrow> ustr) \<Rightarrow> keepass \<Rightarrow> keepass" where
  "redact f KP n path with_gui = map_sum id (redact_session f) (KP n path with_gui)"

definition redact_handle :: "(ustr \<Rightarrow> ustr) \<Rightarrow> handle \<Rightarrow> handle" where
  "redact_handle f kp = (redact_session f (fst kp), snd kp)"

lemma masked_redact:
  assumes "\<forall>p. length (f p) = length p"
  shows "masked (map_option f p) = masked p"
proof (cases p)
  case None
  then show ?thesis by simp
next
  case (Some x)
  have "length (f x) = length x"
    using assms by simp
  then have "(f x = []) = (x = [])"
    by (metis length_0_conv)
  then show ?thesis
    using Some \<open>length (f x) = length x\<close> by (simp add: masked_def)
qed

lemma with_session_redact:
  assumes "\<And>kp. body (redact_handle f kp) = body' kp"
  shows "with_session (redact f KP) path g body = with_session KP path g body'"
proof
  fix s
  show "with_session (redact f KP) path g body s = with_session KP path g body' s"
  proof (cases "KP (opens s) path g")
    case (Inl e)
    then show ?thesis
      by (simp add: with_session_def open_session_def redact_def Let_def)
  next
    case (Inr kp)
    have "body (redact_session f kp, opens s) = body' (kp, opens s)"
      using assms [of "(kp, opens s)"] by (simp add: redact_handle_def)
    then show ?thesis
      using Inr by (simp add: with_session_def open_session_def redact_def Let_def)
  qed
qed

lemma kp_get_entry_count_redact:
  "kp_get_entry_count (redact_handle f kp) = kp_get_entry_count kp"
  by (simp add: kp_get_entry_count_def call_def redact_handle_def redact_session_def fun_eq_iff)

lemma kp_entry_exists_redact:
  "kp_entry_exists (redact_handle f kp) t = kp_entry_exists kp t"
  by (simp add: kp_entry_exists_def call_def redact_handle_def redact_session_def fun_eq_iff)

lemma kp_use_KeePass_sequence_redact:
  "kp_use_KeePass_sequence (redact_handle f kp) t = kp_use_KeePass_sequence kp t"
  by (simp add: kp_use_KeePass_sequence_def call_def redact_handle_def redact_session_def
      fun_eq_iff)

text \<open>A lookup in the other database answers the entry with its password replaced.\<close>

lemma bind_kp_get_entry_redact:
  assumes "\<And>en. k (redact_entry f en) = k' en"
  shows "bind (kp_get_entry (redact_handle f kp) t) k = bind (kp_get_entry kp t) k'"
proof
  fix s
  show "bind (kp_get_entry (redact_handle f kp) t) k s = bind (kp_get_entry kp t) k' s"
    using assms
    by (cases "get_credentials (fst kp) t")
      (simp_all add: bind_def kp_get_entry_def call_def redact_handle_def redact_session_def)
qed

lemma bind_kp_get_credentials_redact:
  assumes "\<And>u p. k (u, map_option f p) = k' (u, p)"
  shows "bind (kp_get_credentials (redact_handle f kp) t) k = bind (kp_get_credentials kp t) k'"
proof
  fix s
  show "bind (kp_get_credentials (redact_handle f kp) t) k s =
      bind (kp_get_credentials kp t) k' s"
    using assms
    by (cases "get_credentials (fst kp) t")
      (simp_all add: bind_def kp_get_credentials_def call_def redact_handle_def
        redact_session_def redact_entry_def)
qed

lemma bind_kp_search_entries_redact:
  assumes "\<And>ens. k (map (redact_entry f) ens) = k' ens"
  shows "bind (kp_search_entries (redact_handle f kp) t n) k = bind (kp_search_entries kp t n) k'"
proof
  fix s
  show "bind (kp_search_entries (redact_handle f kp) t n) k s =
      bind (kp_search_entries kp t n) k' s"
    using assms
    by (cases "search_entries (fst kp) t n")
      (simp_all add: bind_def kp_search_entries_def call_def redact_handle_def
        redact_session_def)
qed

lemma dict_set_redact:
  "dict_set (map (\<lambda>(k, v). (k, h v)) d) k (h v) = map (\<lambda>(k, v). (k, h v)) (dict_set d k v)"
  by (induction d k v rule: dict_set.induct) auto

lemma build_redact:
  "build (map (\<lambda>(k, v). (k, redact_entry f v)) d) (map (redact_entry f) ens) =
     map (\<lambda>(k, v). (k, redact_entry f v)) (build d ens)"
proof (induction ens arbitrary: d)
  case Nil
  then show ?case by (simp add: build_simps)
next
  case (Cons en ens)
  have "uuid (redact_entry f en) = uuid en"
    by (simp add: redact_entry_def)
  then show ?case
    using Cons.IH [of "dict_set d (uuid en) en"]
    by (simp add: build_simps dict_set_redact [where h = "redact_entry f"])
qed

lemma unique_entries_redact:
  "unique_entries (map (redact_entry f) ens) = map (redact_entry f) (unique_entries ens)"
  using build_redact [of f "[]" ens]
  by (simp add: unique_entries_build comp_def case_prod_unfold)

lemma listing_redact: "listing i (map (redact_entry f) ens) = listing i ens"
  by (induction ens arbitrary: i) (simp_all add: entry_lines_def redact_entry_def)

lemma print_entries_redact: "print_entries i (map (redact_entry f) ens) = print_entries i ens"
  by (simp add: fun_eq_iff print_entries_listing listing_redact)

lemma redact_entry_simps:
  "title (redact_entry f en) = title en"
  "username (redact_entry f en) = username en"
  "password (redact_entry f en) = map_option f (password en)"
  "url (redact_entry f en) = url en"
  "notes_attr (redact_entry f en) = notes_attr en"
  "autotype_sequence (redact_entry f en) = autotype_sequence en"
  "uuid (redact_entry f en) = uuid en"
  by (simp_all add: redact_entry_def)

lemma with_session_redact_body:
  "with_session (redact f KP) path g body =
     with_session KP path g (\<lambda>kp. body (redact_handle f kp))"
  by (rule with_session_redact) (rule refl)

lemma bind_open_session_redact:
  "bind (open_session (redact f KP) path g) k =
     bind (open_session KP path g) (\<lambda>kp. k (redact_handle f kp))"
proof
  fix s
  show "bind (open_session (redact f KP) path g) k s =
      bind (open_session KP path g) (\<lambda>kp. k (redact_handle f kp)) s"
    by (cases "KP (opens s) path g")
      (simp_all add: bind_def open_session_def redact_def redact_handle_def Let_def)
qed

lemma bind_kp_get_entry_redact_body:
  "bind (kp_get_entry (redact_handle f kp) t) k =
     bind (kp_get_entry kp t) (\<lambda>en. k (redact_entry f en))"
  by (rule bind_kp_get_entry_redact) (rule refl)

lemma bind_kp_get_credentials_redact_body:
  "bind (kp_get_credentials (redact_handle f kp) t) k =
     bind (kp_get_credentials kp t) (\<lambda>(u, p). k (u, map_option f p))"
  by (rule bind_kp_get_credentials_redact) simp

lemma bind_kp_search_entries_redact_body:
  "bind (kp_search_entries (redact_handle f kp) t n) k =
     bind (kp_search_entries kp t n) (\<lambda>ens. k (map (redact_entry f) ens))"
  by (rule bind_kp_search_entries_redact) (rule refl)

lemmas redact_simps =
  with_session_redact_body bind_kp_get_entry_redact_body bind_kp_get_credentials_redact_body
  bind_kp_search_entries_redact_body kp_get_entry_count_redact kp_entry_exists_redact
  kp_use_KeePass_sequence_redact redact_entry_simps unique_entries_redact print_entries_redact

lemma get_credentials_demo_redact:
  assumes "\<forall>p. length (f p) = length p"
  shows "get_credentials_demo (redact f KP) db_path t g = get_credentials_demo KP db_path t g"
  unfolding get_credentials_demo_def
  by (simp add: redact_simps masked_redact [OF assms]
      cong: if_cong)

lemma get_full_entry_demo_redact:
  assumes "\<forall>p. length (f p) = length p"
  shows "get_full_entry_demo (redact f KP) db_path t g = get_full_entry_demo KP db_path t g"
  unfolding get_full_entry_demo_def
  by (simp add: redact_simps masked_redact [OF assms]
      cong: if_cong)

lemma autotype_demo_redact:
  "autotype_demo (redact f KP) db_path t g = autotype_demo KP db_path t g"
  unfolding autotype_demo_def
  by (simp add: redact_simps
      cong: if_cong)

lemma search_entries_demo_redact:
  "search_entries_demo (redact f KP) db_path t g = search_entries_demo KP db_path t g"
  unfolding search_entries_demo_def
  by (simp add: redact_simps Let_def
      cong: if_cong)

lemma comparison_pass_redact:
  "comparison_pass (redact f KP) db_path g = comparison_pass KP db_path g"
  unfolding comparison_pass_def
  by (simp add: redact_simps
      cong: if_cong)

lemma gui_comparison_demo_redact: "gui_comparison_demo (redact f KP) = gui_comparison_demo KP"
  unfolding gui_comparison_demo_def
  by (simp add: comparison_pass_redact
      cong: if_cong)

lemma menu_search_redact: "menu_search (redact_handle f kp) = menu_search kp"
  unfolding menu_search_def
  by (simp add: redact_simps
      cong: if_cong)

lemma menu_credentials_redact:
  assumes "\<forall>p. length (f p) = length p"
  shows "menu_credentials (redact_handle f kp) = menu_credentials kp"
  unfolding menu_credentials_def
  by (simp add: redact_simps masked_redact [OF assms]
      cong: if_cong)

lemma menu_full_entry_redact:
  assumes "\<forall>p. length (f p) = length p"
  shows "menu_full_entry (redact_handle f kp) = menu_full_entry kp"
  unfolding menu_full_entry_def
  by (simp add: redact_simps masked_redact [OF assms]
      cong: if_cong)

lemma menu_autotype_redact: "menu_autotype (redact_handle f kp) = menu_autotype kp"
  unfolding menu_autotype_def
  by (simp add: redact_simps
      cong: if_cong)

lemma menu_pass_redact:
  assumes "\<forall>p. length (f p) = length p"
  shows "menu_pass (redact f KP) (redact_handle f kp) = menu_pass KP kp"
  unfolding menu_pass_def
  by (simp add: menu_search_redact menu_credentials_redact [OF assms]
      menu_full_entry_redact [OF assms] menu_autotype_redact gui_comparison_demo_redact
      cong: if_cong)

lemma menu_loop_redact_at:
  assumes "\<forall>p. length (f p) = length p"
  shows "menu_loop (redact f KP) (redact_handle f kp) s = menu_loop KP kp s"
proof (induction KP kp s rule: menu_loop.induct)
  case (1 KP kp s)
  obtain evs r s' where mp: "menu_pass KP kp s = (evs, r, s')"
    by (cases "menu_pass KP kp s") auto
  show ?case
  proof (cases r)
    case (Inl e)
    then show ?thesis
      using mp
      by (simp add: menu_loop.simps [of _ _ s] menu_pass_redact [OF assms])
  next
    case (Inr go_on)
    show ?thesis
    proof (cases go_on)
      case True
      have "menu_loop (redact f KP) (redact_handle f kp) s' = menu_loop KP kp s'"
        using "1.IH" [of evs "(r, s')" r s' go_on] mp Inr True by simp
      then show ?thesis
        using mp Inr True
        by (simp add: menu_loop.simps [of _ _ s] menu_pass_redact [OF assms])
    next
      case False
      then show ?thesis
        using mp Inr
        by (simp add: menu_loop.simps [of _ _ s] menu_pass_redact [OF assms])
    qed
  qed
qed

lemma menu_loop_redact:
  assumes "\<forall>p. length (f p) = length p"
  shows "menu_loop (redact f KP) (redact_handle f kp) = menu_loop KP kp"
  using menu_loop_redact_at [OF assms] by (rule ext)

lemma interactive_mode_redact:
  assumes "\<forall>p. length (f p) = length p"
  shows "interactive_mode (redact f KP) g = interactive_mode KP g"
  unfolding interactive_mode_def
  by (simp add: with_session_redact_body menu_loop_redact [OF assms]
      cong: if_cong)

lemma dispatch_redact:
  assumes "\<forall>p. length (f p) = length p"
  shows "dispatch (redact f KP) a db_path = dispatch KP a db_path"
  unfolding dispatch_def
  by (simp add: get_credentials_demo_redact [OF assms] get_full_entry_demo_redact [OF assms]
      autotype_demo_redact search_entries_demo_redact
      cong: if_cong)

lemma main_body_redact:
  assumes "\<forall>p. length (f p) = length p"
  shows "main_body (redact f KP) a = main_body KP a"
  unfolding main_body_def
  by (simp add: dispatch_redact [OF assms] interactive_mode_redact [OF assms]
      cong: if_cong)

lemma main_redact:
  assumes "\<forall>p. length (f p) = length p"
  shows "main (redact f KP) parse_args argv = main KP parse_args argv"
  by (simp add: main_def main_body_redact [OF assms] split: sum.splits)

lemma script_redact:
  assumes "\<forall>p. length (f p) = length p"
  shows "script (redact f KP) parse_args argv = script KP parse_args argv"
  unfolding script_def
  by (simp add: main_redact [OF assms] interactive_mode_redact [OF assms]
      gui_comparison_demo_redact
      cong: if_cong)

lemma demo_minimalistic_redact: "demo_minimalistic (redact f KP) = demo_minimalistic KP"
  unfolding demo_minimalistic_def
  by (simp add: redact_simps bind_open_session_redact
      cong: if_cong)


text \<open>The password with every character replaced by an asterisk.\<close>

definition blank :: "ustr \<Rightarrow> ustr" where
  "blank p = replicate (length p) 42"

lemma redact_entry_redact_entry:
  "redact_entry f (redact_entry g en) = redact_entry (f \<circ> g) en"
  by (simp add: redact_entry_def option.map_comp)

lemma redact_session_redact_session:
  "redact_session f (redact_session g kp) = redact_session (f \<circ> g) kp"
  by (simp add: redact_session_def redact_entry_redact_entry fun_eq_iff sum.map_comp comp_def
      cong: sum.map_cong)

lemma redact_redact: "redact f (redact g KP) = redact (f \<circ> g) KP"
  by (simp add: redact_def redact_session_redact_session fun_eq_iff sum.map_comp comp_def
      cong: sum.map_cong)

lemma blank_after:
  assumes "\<forall>p. length (f p) = length p"
  shows "blank \<circ> f = blank"
  using assms by (simp add: blank_def fun_eq_iff)

lemma redact_blank_redact:
  assumes "\<forall>p. length (f p) = length p"
  shows "redact blank (redact f KP) = redact blank KP"
  by (simp add: redact_redact blank_after [OF assms])

lemma length_blank: "\<forall>p. length (blank p) = length p"
  by (simp add: blank_def)

text \<open>
  Claim C6. Two databases that differ only in password values of equal length are two
  databases that become the same once every password is replaced by asterisks of its
  length (\<open>redact blank\<close>): they open and fail alike and answer the same entries, with
  the same fields, but for the characters of the passwords; an absent password is
  absent in both. On two such databases every handler, the comparison demo, the
  interactive mode, the argument resolver, the whole script and the minimalistic demo
  run alike: the same text on standard output, the same prompts and calls, the same
  result. What is written does not depend on a password but through its length. The
  text the handlers write for a password is \<open>masked\<close>: as many asterisks as the password
  has characters, \<open>N/A\<close> when it is empty or absent.
\<close>

theorem passwords_only_masked:
  assumes "redact blank KP = redact blank KP'"
  shows "get_credentials_demo KP db_path t g = get_credentials_demo KP' db_path t g
       \<and> get_full_entry_demo KP db_path t g = get_full_entry_demo KP' db_path t g
       \<and> autotype_demo KP db_path t g = autotype_demo KP' db_path t g
       \<and> search_entries_demo KP db_path t g = search_entries_demo KP' db_path t g
       \<and> gui_comparison_demo KP = gui_comparison_demo KP'
       \<and> interactive_mode KP g = interactive_mode KP' g
       \<and> main_body KP a = main_body KP' a
       \<and> script KP parse_args argv = script KP' parse_args argv
       \<and> demo_minimalistic KP = demo_minimalistic KP'
       \<and> masked pw =
           (case pw of None \<Rightarrow> U ''N/A''
            | Some p \<Rightarrow> if p = [] then U ''N/A'' else replicate (length p) 42)"
proof -
  note len = length_blank
  have "get_credentials_demo KP db_path t g = get_credentials_demo (redact blank KP) db_path t g"
    by (simp add: get_credentials_demo_redact [OF len])
  then have c1: "get_credentials_demo KP db_path t g = get_credentials_demo KP' db_path t g"
    by (simp add: assms get_credentials_demo_redact [OF len])
  have "get_full_entry_demo KP db_path t g = get_full_entry_demo (redact blank KP) db_path t g"
    by (simp add: get_full_entry_demo_redact [OF len])
  then have c2: "get_full_entry_demo KP db_path t g = get_full_entry_demo KP' db_path t g"
    by (simp add: assms get_full_entry_demo_redact [OF len])
  have "autotype_demo KP db_path t g = autotype_demo (redact blank KP) db_path t g"
    by (simp add: autotype_demo_redact)
  then have c3: "autotype_demo KP db_path t g = autotype_demo KP' db_path t g"
    by (simp add: assms autotype_demo_redact)
  have "search_entries_demo KP db_path t g = search_entries_demo (redact blank KP) db_path t g"
    by (simp add: search_entries_demo_redact)
  then have c4: "search_entries_demo KP db_path t g = search_entries_demo KP' db_path t g"
    by (simp add: assms search_entries_demo_redact)
  have "gui_comparison_demo KP = gui_comparison_demo (redact blank KP)"
    by (simp add: gui_comparison_demo_redact)
  then have c5: "gui_comparison_demo KP = gui_comparison_demo KP'"
    by (simp add: assms gui_comparison_demo_redact)
  have "interactive_mode KP g = interactive_mode (redact blank KP) g"
    by (simp add: interactive_mode_redact [OF len])
  then have c6: "interactive_mode KP g = interactive_mode KP' g"
    by (simp add: assms interactive_mode_redact [OF len])
  have "main_body KP a = main_body (redact blank KP) a"
    by (simp add: main_body_redact [OF len])
  then have c7: "main_body KP a = main_body KP' a"
    by (simp add: assms main_body_redact [OF len])
  have "script KP parse_args argv = script (redact blank KP) parse_args argv"
    by (simp add: script_redact [OF len])
  then have c8: "script KP parse_args argv = script KP' parse_args argv"
    by (simp add: assms script_redact [OF len])
  have "demo_minimalistic KP = demo_minimalistic (redact blank KP)"
    by (simp add: demo_minimalistic_redact)
  then have c9: "demo_minimalistic KP = demo_minimalistic KP'"
    by (simp add: assms demo_minimalistic_redact)
  have c10: "masked pw =
           (case pw of None \<Rightarrow> U ''N/A''
            | Some p \<Rightarrow> if p = [] then U ''N/A'' else replicate (length p) 42)"
    by (simp add: masked_def split: option.splits)
  show ?thesis
    using c1 c2 c3 c4 c5 c6 c7 c8 c9 c10 by blast
qed

text \<open>The sample database with every character of a password replaced by \<open>x\<close>.\<close>

definition crossed_keepass :: keepass where
  "crossed_keepass = redact (map (\<lambda>c. 120)) sample_keepass"

theorem passwords_only_masked_witness:
  "(case crossed_keepass 0 (U ''X'') False of
      Inl e \<Rightarrow> None
    | Inr kp \<Rightarrow> Some (map_sum id password (get_credentials kp (U ''Site'')))) =
     Some (Inr (Some (U ''xxxx'')))
   \<and> password sample_entry = Some (U ''p4ss'')
   \<and> get_credentials_demo crossed_keepass (U ''X'') (U ''Site'') False
       \<lparr>stdin = [], opens = 0\<rparr> =
     get_credentials_demo sample_keepass (U ''X'') (U ''Site'') False \<lparr>stdin = [], opens = 0\<rparr>
   \<and> get_credentials_demo crossed_keepass (U ''X'') (U ''Site'') False
       \<lparr>stdin = [], opens = 0\<rparr> =
     ([Stdout (U ''Getting credentials for entry: '' @ q (U ''Site'') @
               U '' (using console input)'' @ [10]),
       OpenOk 0 (U ''X'') False,
       Call 0 (GetCredentials (U ''Site'')),
       Stdout (sym_check @ U '' Username: alice'' @ [10]),
       Stdout (sym_check @ U '' Password: ****'' @ [10]),
       Released 0],
      Inr (), \<lparr>stdin = [], opens = 1\<rparr>)"
  using passwords_only_masked [where KP = crossed_keepass and KP' = sample_keepass
      and db_path = "U ''X''" and t = "U ''Site''" and g = False]
  by (simp add: crossed_keepass_def redact_blank_redact get_credentials_demo_def
      kp_get_credentials_def prog_defs Let_def redact_def
      sample_keepass_def sample_session_def sample_entry_def redact_session_def
      redact_entry_def masked_def fmt_def input_method_def U_def)


section \<open>Sessions and their release\<close>

text \<open>
  The sessions held after a run, from those held before it: \<open>OpenOk n\<close> acquires the
  session \<open>n\<close>, which must not be held already, and \<open>Released n\<close> releases it, which must
  be held. The answer is \<open>None\<close> when an event breaks one of the two rules. So
  \<open>track [] evs = Some []\<close> says that in \<open>evs\<close> every session acquired is released
  afterwards, once, and that nothing else is released.
\<close>

fun track :: "nat list \<Rightarrow> event list \<Rightarrow> nat list option" where
  "track live [] = Some live"
| "track live (OpenOk n p g # evs) =
     (if n \<in> set live then None else track (n # live) evs)"
| "track live (Released n # evs) =
     (if n \<in> set live then track (removeAll n live) evs else None)"
| "track live (ev # evs) = track live evs"

text \<open>How often a run acquires and releases the session \<open>n\<close>.\<close>

definition acquired :: "nat \<Rightarrow> event list \<Rightarrow> nat" where
  "acquired n evs =
     length (filter (\<lambda>ev. case ev of OpenOk m p g \<Rightarrow> m = n | _ \<Rightarrow> False) evs)"

definition released :: "nat \<Rightarrow> event list \<Rightarrow> nat" where
  "released n evs = length (filter (\<lambda>ev. ev = Released n) evs)"

text \<open>
  A program is tidy when, started with sessions held that were all opened before, it
  ends with the same sessions held, whatever its result: each session it acquires, it
  releases.
\<close>

definition tidy :: "'a prog \<Rightarrow> bool" where
  "tidy m =
     (\<forall>s live. (\<forall>n \<in> set live. n < opens s) \<longrightarrow>
        (case m s of (evs, r, s') \<Rightarrow> opens s \<le> opens s' \<and> track live evs = Some live))"

lemma track_append:
  "track live (xs @ ys) = (case track live xs of None \<Rightarrow> None | Some l \<Rightarrow> track l ys)"
  by (induction live xs rule: track.induct) simp_all

lemma track_counts:
  assumes "track live evs = Some live'" and "distinct live"
  shows "distinct live' \<and>
         acquired n evs + (if n \<in> set live then 1 else 0) =
         released n evs + (if n \<in> set live' then 1 else 0)"
  using assms
proof (induction live evs rule: track.induct)
  case (1 live)
  then show ?case by (simp add: acquired_def released_def)
next
  case (2 live m p g evs)
  then show ?case
    by (auto simp: acquired_def released_def split: if_splits)
next
  case (3 live m evs)
  then show ?case
    by (auto simp: acquired_def released_def distinct_removeAll split: if_splits)
qed (simp_all add: acquired_def released_def)

lemma tidyI:
  assumes "\<And>s live evs r s'. (\<forall>n \<in> set live. n < opens s) \<Longrightarrow> m s = (evs, r, s') \<Longrightarrow>
             opens s \<le> opens s' \<and> track live evs = Some live"
  shows "tidy m"
  unfolding tidy_def
proof (intro allI impI)
  fix s :: state and live
  assume live: "\<forall>n \<in> set live. n < opens s"
  obtain evs r s' where ms: "m s = (evs, r, s')"
    by (cases "m s") auto
  have "opens s \<le> opens s' \<and> track live evs = Some live"
    using live ms by (rule assms)
  then show "case m s of (evs, r, s') \<Rightarrow> opens s \<le> opens s' \<and> track live evs = Some live"
    using ms by simp
qed

lemma tidyD:
  assumes "tidy m" and "\<forall>n \<in> set live. n < opens s" and "m s = (evs, r, s')"
  shows "opens s \<le> opens s'" and "track live evs = Some live"
proof -
  have "\<forall>s live. (\<forall>n \<in> set live. n < opens s) \<longrightarrow>
      (case m s of (evs, r, s') \<Rightarrow> opens s \<le> opens s' \<and> track live evs = Some live)"
    using assms(1) unfolding tidy_def .
  then have "\<forall>live. (\<forall>n \<in> set live. n < opens s) \<longrightarrow>
      (case m s of (evs, r, s') \<Rightarrow> opens s \<le> opens s' \<and> track live evs = Some live)"
    by (rule spec)
  then have "(\<forall>n \<in> set live. n < opens s) \<longrightarrow>
      (case m s of (evs, r, s') \<Rightarrow> opens s \<le> opens s' \<and> track live evs = Some live)"
    by (rule spec)
  then have "opens s \<le> opens s' \<and> track live evs = Some live"
    using assms(2) assms(3) by simp
  then show "opens s \<le> opens s'" and "track live evs = Some live"
    by simp_all
qed

lemma tidy_ret: "tidy (ret x)"
  by (simp add: tidy_def ret_def)

lemma tidy_raise: "tidy (raise e)"
  by (simp add: tidy_def raise_def)

lemma tidy_sys_exit: "tidy (sys_exit n)"
  by (simp add: sys_exit_def tidy_raise)

lemma tidy_py_print: "tidy (py_print t)"
  by (simp add: tidy_def py_print_def emit_def)

lemma tidy_py_print_end: "tidy (py_print_end t e)"
  by (simp add: tidy_def py_print_end_def emit_def)

lemma tidy_sleep: "tidy (emit (Sleep n))"
  by (simp add: tidy_def emit_def)

lemma tidy_py_input: "tidy (py_input p)"
  by (simp add: tidy_def py_input_def split: list.splits input_item.splits)

lemma tidy_call: "tidy (call kp c a)"
  by (simp add: tidy_def call_def)

lemma tidy_logging_log: "tidy (logging_log xs)"
  by (simp add: logging_log_def tidy_ret tidy_raise split: list.splits)

lemma tidy_bind:
  assumes "tidy m" and "\<And>x. tidy (f x)"
  shows "tidy (bind m f)"
proof (rule tidyI)
  fix s live evs r s'
  assume live: "\<forall>n \<in> set live. n < opens s" and b: "bind m f s = (evs, r, s')"
  obtain evs1 r1 s1 where ms: "m s = (evs1, r1, s1)"
    by (cases "m s") auto
  have le1: "opens s \<le> opens s1" and t1: "track live evs1 = Some live"
    using tidyD [OF assms(1) live ms] by simp_all
  show "opens s \<le> opens s' \<and> track live evs = Some live"
  proof (cases r1)
    case (Inl e)
    then show ?thesis
      using b ms le1 t1 by (simp add: bind_def)
  next
    case (Inr x)
    obtain evs2 r2 s2 where fs: "f x s1 = (evs2, r2, s2)"
      by (cases "f x s1") auto
    have live1: "\<forall>n \<in> set live. n < opens s1"
      using live le1 by auto
    have "opens s1 \<le> opens s2" and "track live evs2 = Some live"
      using tidyD [OF assms(2) live1 fs] by simp_all
    then show ?thesis
      using b ms Inr fs le1 t1 by (auto simp: bind_def track_append)
  qed
qed

lemma tidy_seq: "tidy m \<Longrightarrow> tidy n \<Longrightarrow> tidy (seq m n)"
  by (simp add: seq_def tidy_bind)

lemma tidy_block: "(\<And>m. m \<in> set ms \<Longrightarrow> tidy m) \<Longrightarrow> tidy (block ms)"
  by (induction ms) (simp_all add: tidy_ret tidy_seq)

lemma tidy_try_except:
  assumes "tidy m" and "\<And>e. tidy (h e)"
  shows "tidy (try_except m h)"
proof (rule tidyI)
  fix s live evs r s'
  assume live: "\<forall>n \<in> set live. n < opens s" and b: "try_except m h s = (evs, r, s')"
  obtain evs1 r1 s1 where ms: "m s = (evs1, r1, s1)"
    by (cases "m s") auto
  have le1: "opens s \<le> opens s1" and t1: "track live evs1 = Some live"
    using tidyD [OF assms(1) live ms] by simp_all
  show "opens s \<le> opens s' \<and> track live evs = Some live"
  proof (cases r1)
    case (Inr x)
    then show ?thesis
      using b ms le1 t1 by (simp add: try_except_def)
  next
    case (Inl e)
    obtain evs2 r2 s2 where hs: "h e s1 = (evs2, r2, s2)"
      by (cases "h e s1") auto
    have live1: "\<forall>n \<in> set live. n < opens s1"
      using live le1 by auto
    have "opens s1 \<le> opens s2" and "track live evs2 = Some live"
      using tidyD [OF assms(2) live1 hs] by simp_all
    then show ?thesis
      using b ms Inl hs le1 t1 by (auto simp: try_except_def track_append)
  qed
qed

text \<open>The \<open>with\<close> block: what it acquires it releases, however its body ends.\<close>

lemma tidy_with_session:
  assumes "\<And>kp. tidy (body kp)"
  shows "tidy (with_session KP path g body)"
proof (rule tidyI)
  fix s live evs r s'
  assume live: "\<forall>n \<in> set live. n < opens s"
    and w: "with_session KP path g body s = (evs, r, s')"
  let ?n = "opens s"
  let ?s1 = "s\<lparr>opens := Suc ?n\<rparr>"
  show "opens s \<le> opens s' \<and> track live evs = Some live"
  proof (cases "KP ?n path g")
    case (Inl e)
    then show ?thesis
      using w by (auto simp: with_session_def open_session_def Let_def)
  next
    case (Inr kp)
    obtain evs2 r2 s2 where bs: "body (kp, ?n) ?s1 = (evs2, r2, s2)"
      by (cases "body (kp, ?n) ?s1") auto
    have fresh: "?n \<notin> set live"
      using live by auto
    have live1: "\<forall>m \<in> set (?n # live). m < opens ?s1"
      using live by auto
    have le2: "opens ?s1 \<le> opens s2" and t2: "track (?n # live) evs2 = Some (?n # live)"
      using tidyD [OF assms live1 bs] by simp_all
    have evs: "evs = OpenOk ?n path g # evs2 @ [Released ?n]" and s': "s' = s2"
      using w Inr bs by (simp_all add: with_session_def open_session_def Let_def)
    have "track live evs = Some live"
      using fresh t2 by (simp add: evs track_append)
    then show ?thesis
      using le2 s' by simp
  qed
qed

lemma tidy_if: "tidy a \<Longrightarrow> tidy b \<Longrightarrow> tidy (if c then a else b)"
  by simp

lemma tidy_case_prod: "(\<And>a b. tidy (f a b)) \<Longrightarrow> tidy (case p of (a, b) \<Rightarrow> f a b)"
  by (cases p) simp

lemma tidy_let: "tidy (f x) \<Longrightarrow> tidy (let y = x in f y)"
  by simp

lemmas tidy_intros =
  tidy_ret tidy_raise tidy_sys_exit tidy_py_print tidy_py_print_end tidy_sleep tidy_py_input
  tidy_call tidy_logging_log tidy_bind tidy_seq tidy_try_except tidy_with_session tidy_if
  tidy_case_prod

lemma tidy_countdown: "tidy (countdown n)"
  by (induction n) (simp_all add: tidy_ret tidy_seq tidy_py_print_end tidy_sleep)

lemma tidy_print_entries: "tidy (print_entries i ens)"
  by (induction ens arbitrary: i) (simp_all add: tidy_ret tidy_seq tidy_py_print)

lemma tidy_get_credentials_demo: "tidy (get_credentials_demo KP db_path t g)"
  unfolding get_credentials_demo_def kp_get_credentials_def
  by (intro tidy_intros)

lemma tidy_get_full_entry_demo: "tidy (get_full_entry_demo KP db_path t g)"
  unfolding get_full_entry_demo_def kp_get_entry_def block.simps
  by (intro tidy_intros)

lemma tidy_autotype_demo: "tidy (autotype_demo KP db_path t g)"
  unfolding autotype_demo_def kp_use_KeePass_sequence_def
  by (intro tidy_intros tidy_countdown)

lemma tidy_search_entries_demo: "tidy (search_entries_demo KP db_path t g)"
  unfolding search_entries_demo_def kp_search_entries_def Let_def
  by (intro tidy_intros tidy_print_entries)

lemma tidy_comparison_pass: "tidy (comparison_pass KP db_path g)"
  unfolding comparison_pass_def kp_get_entry_count_def
  by (intro tidy_intros)

lemma tidy_gui_comparison_demo: "tidy (gui_comparison_demo KP)"
  unfolding gui_comparison_demo_def Let_def
  by (intro tidy_intros tidy_comparison_pass)

lemma tidy_menu_search: "tidy (menu_search kp)"
  unfolding menu_search_def Let_def kp_entry_exists_def
  by (intro tidy_intros)

lemma tidy_menu_credentials: "tidy (menu_credentials kp)"
  unfolding menu_credentials_def Let_def kp_get_credentials_def
  by (intro tidy_intros)

lemma tidy_menu_full_entry: "tidy (menu_full_entry kp)"
  unfolding menu_full_entry_def Let_def kp_get_entry_def block.simps
  by (intro tidy_intros)

lemma tidy_menu_autotype: "tidy (menu_autotype kp)"
  unfolding menu_autotype_def Let_def kp_use_KeePass_sequence_def
  by (intro tidy_intros)

lemma tidy_menu_pass: "tidy (menu_pass KP kp)"
  unfolding menu_pass_def Let_def block.simps
  by (intro tidy_intros tidy_menu_search tidy_menu_credentials tidy_menu_full_entry
      tidy_menu_autotype tidy_gui_comparison_demo)

lemma menu_loop_tidy_at:
  assumes "\<forall>n \<in> set live. n < opens s" and "menu_loop KP kp s = (evs, r, s')"
  shows "opens s \<le> opens s' \<and> track live evs = Some live"
  using assms
proof (induction KP kp s arbitrary: evs r s' rule: menu_loop.induct)
  case (1 KP kp s)
  obtain evs1 r1 s1 where mp: "menu_pass KP kp s = (evs1, r1, s1)"
    by (cases "menu_pass KP kp s") auto
  have le1: "opens s \<le> opens s1" and t1: "track live evs1 = Some live"
    using tidyD [OF tidy_menu_pass "1.prems"(1) mp] by simp_all
  show ?case
  proof (cases r1)
    case (Inl e)
    then show ?thesis
      using "1.prems"(2) mp le1 t1 by (simp add: menu_loop.simps [of _ _ s])
  next
    case (Inr go_on)
    show ?thesis
    proof (cases go_on)
      case False
      then show ?thesis
        using "1.prems"(2) mp Inr le1 t1 by (simp add: menu_loop.simps [of _ _ s])
    next
      case True
      obtain evs2 r2 s2 where ml: "menu_loop KP kp s1 = (evs2, r2, s2)"
        by (cases "menu_loop KP kp s1") auto
      have live1: "\<forall>n \<in> set live. n < opens s1"
        using "1.prems"(1) le1 by auto
      have "opens s1 \<le> opens s2 \<and> track live evs2 = Some live"
        using "1.IH" [of evs1 "(r1, s1)" r1 s1 go_on evs2 r2 s2] mp Inr True live1 ml by simp
      then show ?thesis
        using "1.prems"(2) mp Inr True ml le1 t1
        by (auto simp: menu_loop.simps [of _ _ s] track_append)
    qed
  qed
qed

lemma tidy_menu_loop: "tidy (menu_loop KP kp)"
  by (rule tidyI) (rule menu_loop_tidy_at)

lemma tidy_interactive_mode: "tidy (interactive_mode KP g)"
  unfolding interactive_mode_def Let_def
  by (intro tidy_intros tidy_menu_loop)

lemma tidy_dispatch: "tidy (dispatch KP a db_path)"
  unfolding dispatch_def
  by (intro tidy_intros tidy_get_credentials_demo tidy_get_full_entry_demo tidy_autotype_demo
      tidy_search_entries_demo)

lemma tidy_getattr: "tidy (getattr a name)"
  by (simp add: getattr_def tidy_ret tidy_raise split: option.splits)

lemma tidy_py_sum: "tidy (py_sum vs)"
  by (induction vs rule: py_sum.induct) (simp_all add: tidy_intros)

lemma tidy_action_count: "tidy (action_count a)"
  unfolding action_count_def
  by (intro tidy_intros tidy_getattr tidy_py_sum)

lemma tidy_main_body: "tidy (main_body KP a)"
  unfolding main_body_def Let_def setup_logging_def
  by (intro tidy_intros tidy_interactive_mode tidy_dispatch tidy_action_count)

lemma tidy_main: "tidy (main KP parse_args argv)"
  by (simp add: main_def tidy_main_body tidy_raise split: sum.splits)

lemma tidy_script: "tidy (script KP parse_args argv)"
  unfolding script_def Let_def block.simps
  by (intro tidy_intros tidy_interactive_mode tidy_gui_comparison_demo tidy_main)

lemma tidy_track:
  assumes "tidy m"
  shows "track [] (fst (m s)) = Some []"
proof -
  obtain evs r s' where ms: "m s = (evs, r, s')"
    by (cases "m s") auto
  have "track [] evs = Some []"
    using tidyD(2) [OF assms _ ms, of "[]"] by simp
  then show ?thesis
    using ms by simp
qed

lemma tidy_counts:
  assumes "tidy m"
  shows "released n (fst (m s)) = acquired n (fst (m s))"
  using track_counts [OF tidy_track [OF assms, of s], of n] by simp

text \<open>
  The minimalistic demo: its first session is released; its second, when the run gets
  to acquire it, is held at the end.
\<close>

lemma demo_minimalistic_track:
  "track [] (fst (demo_minimalistic KP s)) =
     Some (if OpenOk (Suc (opens s)) db_file False \<in> set (fst (demo_minimalistic KP s))
           then [Suc (opens s)] else [])"
  by (auto simp: demo_minimalistic_def kp_get_entry_count_def prog_defs Let_def
      split: sum.splits)

text \<open>
  Claim C10, as amended. In \<open>demo.py\<close> every session is acquired by a \<open>with\<close> block, and
  every run of a single-shot handler, of the comparison demo, of the interactive mode,
  of the argument resolver and of the whole script, whatever the database answers,
  whatever is typed and however the run ends (normal return, handled error, exception
  that propagates), releases each session it acquires, once, after acquiring it, and
  releases nothing else: the run ends with no session held, and it holds as many
  releases of a session as acquisitions of it. In \<open>demo_minimalistic.py\<close> this holds of
  the first session; the second is constructed outside any \<open>with\<close> block and is never
  released: when the run acquires it, it is still held at the end.
\<close>

theorem sessions_released_once:
  "(\<forall>m \<in> set [get_credentials_demo KP db_path t g,
                 get_full_entry_demo KP db_path t g,
                 autotype_demo KP db_path t g,
                 search_entries_demo KP db_path t g,
                 gui_comparison_demo KP,
                 interactive_mode KP g,
                 main_body KP a,
                 script KP parse_args argv].
      track [] (fst (m s)) = Some []
      \<and> (\<forall>n. released n (fst (m s)) = acquired n (fst (m s))))
   \<and> track [] (fst (demo_minimalistic KP s)) =
       Some (if OpenOk (Suc (opens s)) db_file False \<in> set (fst (demo_minimalistic KP s))
             then [Suc (opens s)] else [])"
proof -
  have "track [] (fst (m s)) = Some []
      \<and> (\<forall>n. released n (fst (m s)) = acquired n (fst (m s)))" if "tidy m" for m :: "unit prog"
    using tidy_track [OF that] tidy_counts [OF that] by simp
  then show ?thesis
    using tidy_get_credentials_demo [of KP db_path t g]
      tidy_get_full_entry_demo [of KP db_path t g]
      tidy_autotype_demo [of KP db_path t g]
      tidy_search_entries_demo [of KP db_path t g]
      tidy_gui_comparison_demo [of KP]
      tidy_interactive_mode [of KP g]
      tidy_main_body [of KP a]
      tidy_script [of KP parse_args argv]
      demo_minimalistic_track [of KP s]
    by simp
qed

theorem sessions_released_once_witness:
  "track [] (fst (get_credentials_demo sample_keepass (U ''X'') (U ''Site'') False
                    \<lparr>stdin = [], opens = 0\<rparr>)) = Some []
   \<and> acquired 0 (fst (get_credentials_demo sample_keepass (U ''X'') (U ''Site'') False
                    \<lparr>stdin = [], opens = 0\<rparr>)) = 1
   \<and> released 0 (fst (get_credentials_demo sample_keepass (U ''X'') (U ''Site'') False
                    \<lparr>stdin = [], opens = 0\<rparr>)) = 1
   \<and> track [] (fst (get_credentials_demo sample_keepass (U ''X'') (U ''None'') False
                    \<lparr>stdin = [], opens = 0\<rparr>)) = Some []
   \<and> track [] (fst (get_credentials_demo locked_keepass (U ''X'') (U ''Site'') False
                    \<lparr>stdin = [], opens = 0\<rparr>)) = Some []"
  using sessions_released_once [where KP = sample_keepass and db_path = "U ''X''"
      and t = "U ''Site''" and g = False and s = "\<lparr>stdin = [], opens = 0\<rparr>"]
    sessions_released_once [where KP = sample_keepass and db_path = "U ''X''"
      and t = "U ''None''" and g = False and s = "\<lparr>stdin = [], opens = 0\<rparr>"]
    sessions_released_once [where KP = locked_keepass and db_path = "U ''X''"
      and t = "U ''Site''" and g = False and s = "\<lparr>stdin = [], opens = 0\<rparr>"]
  by (simp add: acquired_def released_def get_credentials_demo_def kp_get_credentials_def
      prog_defs Let_def sample_keepass_def sample_session_def U_def)

text \<open>
  Claim C10 as the spec states it fails for the second session of the minimalistic demo:
  on a database that opens, the run acquires the sessions 0 and 1 and releases the
  session 0 only.
\<close>

theorem minimalistic_second_session_kept:
  "demo_minimalistic sample_keepass \<lparr>stdin = [], opens = 0\<rparr> =
     ([OpenOk 0 db_file False,
       Call 0 GetEntryCount,
       Stdout (U ''Antal poster: 3'' @ [10]),
       Released 0,
       OpenOk 1 db_file False,
       Call 1 GetEntryCount,
       Stdout (U ''Antal poster: 3'' @ [10])],
      Inr (), \<lparr>stdin = [], opens = 2\<rparr>)
   \<and> track [] (fst (demo_minimalistic sample_keepass \<lparr>stdin = [], opens = 0\<rparr>)) = Some [1]
   \<and> acquired 1 (fst (demo_minimalistic sample_keepass \<lparr>stdin = [], opens = 0\<rparr>)) = 1
   \<and> released 1 (fst (demo_minimalistic sample_keepass \<lparr>stdin = [], opens = 0\<rparr>)) = 0"
  by (simp add: demo_minimalistic_def kp_get_entry_count_def prog_defs Let_def
      acquired_def released_def sample_keepass_def sample_session_def str_int_def
      str_nat.simps U_def)

end
